theory Spec2Isabelle
  imports Complex_Main "HOL-Library.Multiset" "HOL-Library.List_Lexorder" "HOL-Library.Char_ord"
    "HOL-Library.Product_Lexorder"
begin

section \<open>Variant records (nong.hpp, as used by index\_manager.cpp)\<close>

text \<open>
  The classes \<open>SongMetadata\<close>, \<open>Song\<close> (with its kinds \<open>LocalSong\<close>, \<open>YTSong\<close>,
  \<open>HostedSong\<close>) and \<open>Nongs\<close> are declared outside \<open>index_manager.cpp\<close>; the records below
  hold exactly the members that file reads or writes: \<open>metadata()\<close>, \<open>type()\<close>, \<open>path()\<close>,
  \<open>indexID()\<close>, \<open>url()\<close>, \<open>youtubeID()\<close>, \<open>setIndexID\<close>, and \<open>defaultSong()\<close>, \<open>locals()\<close>,
  \<open>youtube()\<close>, \<open>hosted()\<close>.

  A \<open>Song*\<close> is an address; the stores own their songs through \<open>unique_ptr\<close>, so a
  collection is a list of addresses and the objects live in a heap.  \<open>std::string\<close> is a
  \<open>char list\<close>, compared bytewise and lexicographically as \<open>operator<\<close> does.
\<close>

datatype NongType = LOCAL | YOUTUBE | HOSTED

record SongMetadata =
  gdID :: int
  uniqueID :: string
  name :: string
  artist :: string
  level :: "string option"
  startOffset :: int

record Song =
  metadata :: SongMetadata
  songType :: NongType
  path :: "string option"
  indexID :: "string option"
  url :: string
  youtubeID :: string

type_synonym song_ptr = nat

type_synonym heap = "song_ptr \<Rightarrow> Song"

record Nongs =
  defaultSong :: song_ptr
  locals :: "song_ptr list"
  youtube :: "song_ptr list"
  hosted :: "song_ptr list"

definition uid :: "heap \<Rightarrow> song_ptr \<Rightarrow> string" where
  "uid h p = uniqueID (metadata (h p))"

section \<open>IndexManager::getNongs\<close>

subsection \<open>Lines 296--363: merging the local store with the index table\<close>

text \<open>
  The inner loops at lines 319--327 and 333--341: for one local song, when the index
  table has an entry for the song id and the local song carries an \<open>indexID\<close>, the local
  song's \<open>uniqueID\<close> is pushed once for every index song of the same kind with that
  \<open>uniqueID\<close>.
\<close>

definition addedFor :: "heap \<Rightarrow> song_ptr list option \<Rightarrow> song_ptr \<Rightarrow> string list" where
  "addedFor h indexSongs song =
     (case indexSongs of
        None \<Rightarrow> []
      | Some ixs \<Rightarrow>
          if indexID (h song) \<noteq> None
          then map (\<lambda>indexSong. uid h song) (filter (\<lambda>indexSong. uid h song = uid h indexSong) ixs)
          else [])"

definition addedIndexSongs :: "heap \<Rightarrow> Nongs \<Rightarrow> Nongs option \<Rightarrow> string list" where
  "addedIndexSongs h localNongs indexNongs =
     concat (map (addedFor h (map_option youtube indexNongs)) (youtube localNongs)) @
     concat (map (addedFor h (map_option hosted indexNongs)) (hosted localNongs))"

text \<open>Lines 345--363: the index songs whose \<open>uniqueID\<close> \<open>std::find\<close> does not find.\<close>

definition notAdded :: "heap \<Rightarrow> string list \<Rightarrow> song_ptr list \<Rightarrow> song_ptr list" where
  "notAdded h added songs = filter (\<lambda>song. uid h song \<notin> set added) songs"

text \<open>
  The vector \<open>nongs\<close> as it stands at line 364, before \<open>std::sort\<close>, for the local
  collection \<open>localNongs\<close> and the index collection \<open>indexNongs\<close> of the song id (absent
  when \<open>m_indexNongs\<close> has no entry).
\<close>

definition mergedNongs :: "heap \<Rightarrow> Nongs \<Rightarrow> Nongs option \<Rightarrow> song_ptr list" where
  "mergedNongs h localNongs indexNongs =
     (let added = addedIndexSongs h localNongs indexNongs
      in defaultSong localNongs # locals localNongs @ youtube localNongs @ hosted localNongs @
         (case indexNongs of
            None \<Rightarrow> []
          | Some ix \<Rightarrow> notAdded h added (youtube ix) @ notAdded h added (hosted ix)))"

subsection \<open>Lines 365--418: the comparator handed to \<open>std::sort\<close>\<close>

definition sortedNongType :: "NongType \<Rightarrow> nat" where
  "sortedNongType t = (case t of LOCAL \<Rightarrow> 1 | HOSTED \<Rightarrow> 2 | YOUTUBE \<Rightarrow> 3)"

text \<open>\<open>a->path().has_value() && std::filesystem::exists(a->path().value())\<close>\<close>

definition pathExists :: "(string \<Rightarrow> bool) \<Rightarrow> Song \<Rightarrow> bool" where
  "pathExists fsExists a = (case path a of None \<Rightarrow> False | Some p \<Rightarrow> fsExists p)"

text \<open>Lines 404--417, reached when the file rule of lines 393--402 does not decide.\<close>

definition compareTail :: "Song \<Rightarrow> Song \<Rightarrow> bool" where
  "compareTail a b =
     (if songType a \<noteq> songType b
      then sortedNongType (songType a) < sortedNongType (songType b)
      else if (indexID a \<noteq> None) \<noteq> (indexID b \<noteq> None)
      then indexID a = None \<and> indexID b \<noteq> None
      else name (metadata a) < name (metadata b))"

definition sortLambda :: "(string \<Rightarrow> bool) \<Rightarrow> string \<Rightarrow> Song \<Rightarrow> Song \<Rightarrow> bool" where
  "sortLambda fsExists defaultUniqueID a b =
     (if uniqueID (metadata a) = defaultUniqueID then True
      else if uniqueID (metadata b) = defaultUniqueID then False
      else if indexID a = None \<and> indexID b \<noteq> None then True
      else if indexID a \<noteq> None \<and> indexID b = None then False
      else if pathExists fsExists a
      then (if \<not> pathExists fsExists b then True else compareTail a b)
      else if pathExists fsExists b then False
      else compareTail a b)"

subsection \<open>\<open>std::sort\<close> and the returned vector\<close>

text \<open>
  The C++ standard leaves the algorithm of \<open>std::sort\<close> open.  On a range of at most 16
  elements libstdc++ (\<open>__insertion_sort\<close>), and on a range of at most 32 elements the
  library of MSVC (\<open>_Insertion_sort_unchecked\<close>), run the insertion sort below.  Each
  element \<open>val\<close> of the range in turn moves to the front when \<open>comp(val, *first)\<close> holds;
  otherwise it moves towards the front past every element \<open>prev\<close> with \<open>comp(val, prev)\<close>,
  and stops at \<open>*first\<close> at the latest.  On longer ranges the libraries partition the range
  first, which the model does not follow.  (libc++ sorts a range of two elements by the same
  question, \<open>comp(second, first)\<close>, and a range of three to five elements by a fixed network
  of comparisons.)

  \<open>linearInsert\<close> walks from the hole towards the front: its list is the sorted part of the
  range in reverse, the neighbour of the hole first.
\<close>

fun linearInsert :: "('a \<Rightarrow> 'a \<Rightarrow> bool) \<Rightarrow> 'a \<Rightarrow> 'a list \<Rightarrow> 'a list" where
  "linearInsert cmp val [] = [val]"
| "linearInsert cmp val (prev # front) =
     (if cmp val prev then prev # linearInsert cmp val front else val # prev # front)"

definition insertStep :: "('a \<Rightarrow> 'a \<Rightarrow> bool) \<Rightarrow> 'a list \<Rightarrow> 'a \<Rightarrow> 'a list" where
  "insertStep cmp sortedRange val =
     (case sortedRange of
        [] \<Rightarrow> [val]
      | first # rest \<Rightarrow>
          if cmp val first then val # sortedRange
          else rev (linearInsert cmp val (rev sortedRange)))"

definition stdSort :: "('a \<Rightarrow> 'a \<Rightarrow> bool) \<Rightarrow> 'a list \<Rightarrow> 'a list" where
  "stdSort cmp xs = foldl (insertStep cmp) [] xs"

text \<open>
  What the standard promises of \<open>std::sort\<close> when \<open>comp\<close> is a strict weak ordering: the
  range afterwards is a permutation of the range before, and no element is \<open>comp\<close>-less than
  an element that stands before it.
\<close>

definition stdSortPost :: "('a \<Rightarrow> 'a \<Rightarrow> bool) \<Rightarrow> 'a list \<Rightarrow> 'a list \<Rightarrow> bool" where
  "stdSortPost cmp xs ys = (mset ys = mset xs \<and> sorted_wrt (\<lambda>a b. \<not> cmp b a) ys)"

text \<open>
  \<open>getNongs(gdSongID)\<close>.  \<open>Inl\<close> is the \<open>Err\<close> of line 300, for a song id the local store
  (\<open>NongManager::getNongs\<close>) does not know; \<open>fsExists\<close> is \<open>std::filesystem::exists\<close>.
\<close>

definition getNongs ::
  "(string \<Rightarrow> bool) \<Rightarrow> heap \<Rightarrow> (int \<rightharpoonup> Nongs) \<Rightarrow> (int \<rightharpoonup> Nongs) \<Rightarrow> int \<Rightarrow>
   string + song_ptr list" where
  "getNongs fsExists h localStore m_indexNongs gdSongID =
     (case localStore gdSongID of
        None \<Rightarrow> Inl ''Failed to get nongs''
      | Some localNongs \<Rightarrow>
          Inr (stdSort
                 (\<lambda>a b. sortLambda fsExists (uid h (defaultSong localNongs)) (h a) (h b))
                 (mergedNongs h localNongs (m_indexNongs gdSongID))))"

text \<open>The pointers a collection hands to \<open>getNongs\<close>.\<close>

definition localSongs :: "Nongs \<Rightarrow> song_ptr list" where
  "localSongs localNongs =
     defaultSong localNongs # locals localNongs @ youtube localNongs @ hosted localNongs"

definition indexSongs :: "Nongs option \<Rightarrow> song_ptr list" where
  "indexSongs indexNongs = (case indexNongs of None \<Rightarrow> [] | Some ix \<Rightarrow> youtube ix @ hosted ix)"

text \<open>
  The order the rules after the default rule describe: no \<open>indexID\<close> first, then an existing
  file first, then the kind, then the name.
\<close>

definition sortKey :: "(string \<Rightarrow> bool) \<Rightarrow> Song \<Rightarrow> bool \<times> bool \<times> nat \<times> string" where
  "sortKey fsExists a =
     (indexID a \<noteq> None, \<not> pathExists fsExists a, sortedNongType (songType a), name (metadata a))"

section \<open>The manager's state, the event bus and the task framework\<close>

text \<open>
  The three events of \<open>events/*.hpp\<close>; \<open>.post()\<close> publishes one.  A progress value is a
  \<open>float\<close>; it is a real here, and every \<open>float\<close> operation of the source is the real
  operation followed by the rounding \<open>rnd\<close>, a parameter of the functions that compute
  (\<open>float32\<close> below is the rounding of binary32).
\<close>

datatype event =
    SongDownloadProgressEvent int string real
  | SongErrorEvent bool string
  | SongStateChangedEvent int

type_synonym task_id = nat

datatype json =
    JNull | JBool bool | JNumber int | JString string
  | JArray "json list" | JObject "(string \<times> json) list"

datatype request =
    HttpGet string
  | HttpPostJson string json

text \<open>
  What a \<open>web::WebResponse\<close> answers to \<open>ok()\<close>, \<open>data()\<close>, \<open>string()\<close> and \<open>json()\<close>
  (\<open>None\<close>: the \<open>Result\<close> is an error).
\<close>

record WebResponse =
  r_ok :: bool
  r_data :: string
  r_string :: "string option"
  r_json :: "json option"

text \<open>
  An event of a task: a progress tick, the terminal value, or the cancellation.  For a web
  task the tick carries \<open>downloadProgress()\<close>, an optional percentage; for the download
  and fetch tasks it carries the \<open>float\<close> their progress mappers computed.
\<close>

datatype ('p, 'v) taskEvent = Progress 'p | Value 'v | Cancelled

type_synonym webEvent = "(real option, WebResponse) taskEvent"
type_synonym downloadEvent = "(real, string + string) taskEvent"
type_synonym fetchEvent = "(real, string + unit) taskEvent"

text \<open>
  The listener of lines 623--666 with what its closure captures and the task it filters;
  the listener of lines 240--264 likewise.
\<close>

record DownloadListener =
  l_task :: task_id
  l_gdSongID :: int
  l_id :: string
  l_nong :: song_ptr

record IndexSource =
  m_url :: string
  m_enabled :: bool

record FetchListener =
  f_task :: task_id
  f_index :: IndexSource
  f_filepath :: string

text \<open>
  The two listeners a YouTube task allocates (lines 450--453): which of them waits for a
  web task, or that both are deleted.
\<close>

datatype cobaltStage = CobaltAllocated | AwaitingMetadata | AwaitingSong | CobaltDeleted

text \<open>
  Everything a statement of the source does beyond computing a value, in the order the
  statements run.
\<close>

datatype effect =
    Posted event
  | Requested task_id request
  | FileWritten string string
  | IndexFileLoaded string "string option"
  | ProgressSet string real
  | ProgressErased string
  | ListenerErased string
  | IndexIDSet song_ptr string
  | SetActiveSongCalled int string
  | CancelCalled task_id
  | Finished task_id "string + string"

record world =
  heap :: heap
  files :: "string \<rightharpoonup> string"
  m_indexNongs :: "int \<rightharpoonup> Nongs"
  m_indexListeners :: "string \<rightharpoonup> FetchListener"
  m_downloadSongListeners :: "string \<rightharpoonup> DownloadListener"
  m_downloadProgress :: "string \<rightharpoonup> real"
  cobalt :: "task_id \<rightharpoonup> cobaltStage"
  cancelRequested :: "task_id \<Rightarrow> bool"
  finished :: "task_id \<rightharpoonup> string + string"
  nextTask :: task_id
  trace :: "effect list"

text \<open>
  The collaborators \<open>index_manager.cpp\<close> calls and does not define: \<open>NongManager\<close>, the
  \<open>indexes\<close> setting, \<open>matjson\<close>, the \<open>Serialize\<close> instances of \<open>index_serialize.hpp\<close>,
  \<open>std::hash\<close>, and whether the file system opens a file.  \<open>addIndexSongs\<close> is what lines
  97--160 of \<open>loadIndex\<close> do to the heap and to \<open>m_indexNongs\<close>, with the messages of the
  error events they post: those lines build the collections through \<open>Nongs::add\<close> and the
  song constructors, which are declared elsewhere.
\<close>

record collab =
  generateSongFilePath :: "(string \<rightharpoonup> string) \<Rightarrow> string \<Rightarrow> string"
  setActiveSong :: "int \<Rightarrow> string \<Rightarrow> string + unit"
  indexesSetting :: "IndexSource list"
  indexCacheFile :: "string \<Rightarrow> string"
  jsonParse :: "string \<Rightarrow> string + json"
  jsonDump :: "json \<Rightarrow> string"
  indexMetadataFromJson :: "json \<Rightarrow> string + unit"
  canOpenForWrite :: "string \<Rightarrow> bool"
  canOpenForRead :: "string \<Rightarrow> bool"
  addIndexSongs ::
    "json \<Rightarrow> heap \<Rightarrow> (int \<rightharpoonup> Nongs) \<Rightarrow> heap \<times> (int \<rightharpoonup> Nongs) \<times> string list"

subsection \<open>Primitive statements\<close>

definition emit :: "effect \<Rightarrow> world \<Rightarrow> world" where
  "emit e w = w\<lparr>trace := trace w @ [e]\<rparr>"

definition post :: "event \<Rightarrow> world \<Rightarrow> world" where
  "post ev w = emit (Posted ev) w"

text \<open>\<open>m_downloadProgress[id] = progress\<close>\<close>

definition setProgress :: "string \<Rightarrow> real \<Rightarrow> world \<Rightarrow> world" where
  "setProgress ident progress w =
     emit (ProgressSet ident progress)
       (w\<lparr>m_downloadProgress := (m_downloadProgress w)(ident \<mapsto> progress)\<rparr>)"

text \<open>\<open>m_downloadProgress.erase(id)\<close> and \<open>m_downloadSongListeners.erase(id)\<close>\<close>

definition eraseProgress :: "string \<Rightarrow> world \<Rightarrow> world" where
  "eraseProgress ident w =
     emit (ProgressErased ident) (w\<lparr>m_downloadProgress := (m_downloadProgress w)(ident := None)\<rparr>)"

definition eraseListener :: "string \<Rightarrow> world \<Rightarrow> world" where
  "eraseListener ident w =
     emit (ListenerErased ident)
       (w\<lparr>m_downloadSongListeners := (m_downloadSongListeners w)(ident := None)\<rparr>)"

text \<open>\<open>unordered_map::emplace\<close> inserts nothing when the key is present.\<close>

definition emplaceListener :: "string \<Rightarrow> DownloadListener \<Rightarrow> world \<Rightarrow> world" where
  "emplaceListener ident l w =
     (case m_downloadSongListeners w ident of
        None \<Rightarrow> w\<lparr>m_downloadSongListeners := (m_downloadSongListeners w)(ident \<mapsto> l)\<rparr>
      | Some old \<Rightarrow> w)"

definition emplaceIndexListener :: "string \<Rightarrow> FetchListener \<Rightarrow> world \<Rightarrow> world" where
  "emplaceIndexListener u l w =
     (case m_indexListeners w u of
        None \<Rightarrow> w\<lparr>m_indexListeners := (m_indexListeners w)(u \<mapsto> l)\<rparr>
      | Some old \<Rightarrow> w)"

text \<open>\<open>nong->setIndexID(id)\<close>\<close>

definition setIndexID :: "song_ptr \<Rightarrow> string \<Rightarrow> world \<Rightarrow> world" where
  "setIndexID nong ident w =
     emit (IndexIDSet nong ident) (w\<lparr>heap := (heap w)(nong := (heap w nong)\<lparr>indexID := Some ident\<rparr>)\<rparr>)"

text \<open>
  \<open>std::ofstream file(p); file.write(\<dots>); file.close()\<close> with no check of the stream, as
  at lines 562--567 and 606--611: nothing is written when the file does not open.
\<close>

definition writeFile :: "collab \<Rightarrow> string \<Rightarrow> string \<Rightarrow> world \<Rightarrow> world" where
  "writeFile env p contents w =
     (if canOpenForWrite env p
      then emit (FileWritten p contents) (w\<lparr>files := (files w)(p \<mapsto> contents)\<rparr>)
      else w)"

text \<open>
  \<open>finish(result)\<close> of \<open>Task::runWithCallback\<close>: the task ends with \<open>result\<close>, unless it
  has ended or was cancelled before.
\<close>

definition finish :: "task_id \<Rightarrow> string + string \<Rightarrow> world \<Rightarrow> world" where
  "finish t result w =
     (if finished w t = None \<and> \<not> cancelRequested w t
      then emit (Finished t result) (w\<lparr>finished := (finished w)(t \<mapsto> result)\<rparr>)
      else w)"

text \<open>A web request is started for the listener of task \<open>t\<close>.\<close>

definition startRequest :: "task_id \<Rightarrow> request \<Rightarrow> world \<Rightarrow> world" where
  "startRequest t req w = emit (Requested t req) w"

text \<open>A task is created: it has a new identity, has not ended and is not cancelled.\<close>

definition newTask :: "world \<Rightarrow> task_id \<times> world" where
  "newTask w =
     (nextTask w,
      w\<lparr>nextTask := Suc (nextTask w),
        finished := (finished w)(nextTask w := None),
        cancelRequested := (cancelRequested w)(nextTask w := False)\<rparr>)"


subsection \<open>\<open>matjson::Value\<close>, as far as the file uses it\<close>

text \<open>
  \<open>is_object\<close>, \<open>is_string\<close>, \<open>as_string\<close>, \<open>contains\<close>, \<open>operator[]\<close> and \<open>set\<close>.  The
  source reads a key only after \<open>contains\<close> and calls \<open>as_string\<close> only after \<open>is_string\<close>
  (lines 510--521), so what the two answer elsewhere is never used.
\<close>

fun isObject :: "json \<Rightarrow> bool" where
  "isObject (JObject kvs) = True"
| "isObject j = False"

fun isString :: "json \<Rightarrow> bool" where
  "isString (JString s) = True"
| "isString j = False"

fun asString :: "json \<Rightarrow> string" where
  "asString (JString s) = s"
| "asString j = []"

fun jsonContains :: "json \<Rightarrow> string \<Rightarrow> bool" where
  "jsonContains (JObject kvs) k = (map_of kvs k \<noteq> None)"
| "jsonContains j k = False"

fun jsonGet :: "json \<Rightarrow> string \<Rightarrow> json" where
  "jsonGet (JObject kvs) k = (case map_of kvs k of None \<Rightarrow> JNull | Some v \<Rightarrow> v)"
| "jsonGet j k = JNull"

fun objSet :: "string \<Rightarrow> json \<Rightarrow> (string \<times> json) list \<Rightarrow> (string \<times> json) list" where
  "objSet k v [] = [(k, v)]"
| "objSet k v ((k', v') # kvs) = (if k' = k then (k, v) # kvs else (k', v') # objSet k v kvs)"

fun jsonSet :: "json \<Rightarrow> string \<Rightarrow> json \<Rightarrow> json" where
  "jsonSet (JObject kvs) k v = JObject (objSet k v kvs)"
| "jsonSet j k v = j"

section \<open>IndexManager::downloadSong(Song*)\<close>

subsection \<open>The progress formulas (lines 486--489, 535--539, 619)\<close>

definition valueOr0 :: "real option \<Rightarrow> real" where
  "valueOr0 p = (case p of None \<Rightarrow> 0 | Some x \<Rightarrow> x)"

text \<open>\<open>downloadProgress().value_or(0) / 1000.f\<close>\<close>

definition stageAProgress :: "(real \<Rightarrow> real) \<Rightarrow> real option \<Rightarrow> real" where
  "stageAProgress rnd p = rnd (valueOr0 p / 1000)"

text \<open>\<open>downloadProgress().value_or(0) / 100.f * 0.9f + 0.1f\<close>\<close>

definition stageBProgress :: "(real \<Rightarrow> real) \<Rightarrow> real option \<Rightarrow> real" where
  "stageBProgress rnd p = rnd (rnd (rnd (valueOr0 p / 100) * rnd (9 / 10)) + rnd (1 / 10))"

text \<open>\<open>downloadProgress().value_or(0) / 100.f\<close>\<close>

definition hostedProgress :: "(real \<Rightarrow> real) \<Rightarrow> real option \<Rightarrow> real" where
  "hostedProgress rnd p = rnd (valueOr0 p / 100)"

subsection \<open>Lines 623--664: the listener of the download task\<close>

definition downloadListener :: "collab \<Rightarrow> DownloadListener \<Rightarrow> downloadEvent \<Rightarrow> world \<Rightarrow> world" where
  "downloadListener env l event w =
     (case event of
        Progress progress \<Rightarrow>
          post (SongDownloadProgressEvent (l_gdSongID l) (l_id l) progress)
            (setProgress (l_id l) progress w)
      | Cancelled \<Rightarrow>
          (let w1 = eraseListener (l_id l) (eraseProgress (l_id l) w)
           in post (SongStateChangedEvent (l_gdSongID l))
                (post (SongErrorEvent False ''Failed to fetch song: cancelled'') w1))
      | Value result \<Rightarrow>
          (let w1 = eraseListener (l_id l) (eraseProgress (l_id l) w)
           in case result of
                Inl err \<Rightarrow>
                  post (SongStateChangedEvent (l_gdSongID l))
                    (post (SongErrorEvent True (''Failed to fetch song: '' @ err)) w1)
              | Inr destination \<Rightarrow>
                  if length destination = 0
                  then post (SongStateChangedEvent (l_gdSongID l)) w1
                  else
                    (let w2 = setIndexID (l_nong l) (l_id l) w1;
                         w3 = emit (SetActiveSongCalled (l_gdSongID l) (l_id l)) w2
                     in case setActiveSong env (l_gdSongID l) (l_id l) of
                          Inl err \<Rightarrow>
                            post (SongStateChangedEvent (l_gdSongID l))
                              (post (SongErrorEvent True (''Failed to set song as active: '' @ err)) w3)
                        | Inr u \<Rightarrow> post (SongStateChangedEvent (l_gdSongID l)) w3)))"

text \<open>
  The task framework hands an event of task \<open>t\<close> to the listener that filters \<open>t\<close>; the
  listener of a download is the entry of \<open>m_downloadSongListeners\<close> under its \<open>uniqueID\<close>.
  With no such entry the event reaches nobody.
\<close>

definition deliverDownloadEvent ::
  "collab \<Rightarrow> string \<Rightarrow> task_id \<Rightarrow> downloadEvent \<Rightarrow> world \<Rightarrow> world" where
  "deliverDownloadEvent env ident t event w =
     (case m_downloadSongListeners w ident of
        None \<Rightarrow> w
      | Some l \<Rightarrow> if l_task l = t then downloadListener env l event w else w)"

subsection \<open>Lines 594--621: the Hosted task\<close>

definition hostedMap :: "collab \<Rightarrow> WebResponse \<Rightarrow> world \<Rightarrow> (string + string) \<times> world" where
  "hostedMap env response w =
     (if r_ok response
      then (let destination = generateSongFilePath env (files w) ''mp3''
            in (Inr destination, writeFile env destination (r_data response) w))
      else (Inl ''Web request failed'', w))"

text \<open>
  The response of the Hosted request of task \<open>t\<close> arrives: the framework runs the mapper on
  it and hands the mapped value to the listener that filters \<open>t\<close>.
\<close>

definition hostedCompleted ::
  "collab \<Rightarrow> string \<Rightarrow> task_id \<Rightarrow> WebResponse \<Rightarrow> world \<Rightarrow> world" where
  "hostedCompleted env ident t response w =
     (case m_downloadSongListeners w ident of
        None \<Rightarrow> w
      | Some l \<Rightarrow>
          if l_task l = t
          then (case hostedMap env response w of
                  (result, w1) \<Rightarrow> downloadListener env l (Value result) w1)
          else w)"

subsection \<open>Lines 449--593: the YouTube task\<close>

text \<open>Lines 466--472: \<open>finishErr\<close> deletes both listeners and ends the task with the error.\<close>

definition finishErr :: "task_id \<Rightarrow> string \<Rightarrow> world \<Rightarrow> world" where
  "finishErr t err w = finish t (Inl err) (w\<lparr>cobalt := (cobalt w)(t \<mapsto> CobaltDeleted)\<rparr>)"

text \<open>Lines 525--572: the listener of the audio request.\<close>

definition cobaltSongListener ::
  "collab \<Rightarrow> (real \<Rightarrow> real) \<Rightarrow> task_id \<Rightarrow> song_ptr \<Rightarrow> webEvent \<Rightarrow> world \<Rightarrow> world" where
  "cobaltSongListener env rnd t yt event w =
     (if cancelRequested w t \<or> event = Cancelled
      then finishErr t ''Cancelled while fetching song data from Cobalt'' w
      else case event of
             Progress p \<Rightarrow>
               (let progress = stageBProgress rnd p
                in post (SongDownloadProgressEvent (gdID (metadata (heap w yt))) (uid (heap w) yt) progress)
                     (setProgress (uid (heap w) yt) progress w))
           | Value response \<Rightarrow>
               if \<not> r_ok response
               then finishErr t ''Unable to get Cobalt song response'' w
               else
                 (let destination = generateSongFilePath env (files w) ''mp3'';
                      w1 = writeFile env destination (r_data response) w;
                      w2 = w1\<lparr>cobalt := (cobalt w1)(t \<mapsto> CobaltDeleted)\<rparr>
                  in finish t (Inr destination) w2)
           | Cancelled \<Rightarrow> w)"

text \<open>Lines 474--578: the listener of the resolver request.\<close>

definition cobaltMetadataListener ::
  "(real \<Rightarrow> real) \<Rightarrow> task_id \<Rightarrow> song_ptr \<Rightarrow> webEvent \<Rightarrow> world \<Rightarrow> world" where
  "cobaltMetadataListener rnd t yt event w =
     (if cancelRequested w t \<or> event = Cancelled
      then finishErr t ''Cancelled while fetching song metadata from Cobalt'' w
      else case event of
             Progress p \<Rightarrow>
               (let progress = stageAProgress rnd p
                in post (SongDownloadProgressEvent (gdID (metadata (heap w yt))) (uid (heap w) yt) progress)
                     (setProgress (uid (heap w) yt) progress w))
           | Value response \<Rightarrow>
               (case (if r_ok response then r_json response else None) of
                  None \<Rightarrow> finishErr t ''Unable to get/parse Cobalt metadata response'' w
                | Some jsonObj \<Rightarrow>
                    if \<not> jsonContains jsonObj ''status'' \<or> jsonGet jsonObj ''status'' \<noteq> JString ''stream''
                    then finishErr t ''Cobalt metadata response is not a stream'' w
                    else if \<not> jsonContains jsonObj ''url'' \<or> \<not> isString (jsonGet jsonObj ''url'')
                    then finishErr t ''Cobalt metadata bad response'' w
                    else startRequest t (HttpGet (asString (jsonGet jsonObj ''url'')))
                           (w\<lparr>cobalt := (cobalt w)(t \<mapsto> AwaitingSong)\<rparr>))
           | Cancelled \<Rightarrow> w)"

text \<open>
  The framework hands an event of a web task to the listener whose filter is that task:
  the resolver listener after line 580, the audio listener after line 574, nobody before
  or after.
\<close>

definition deliverWebEvent ::
  "collab \<Rightarrow> (real \<Rightarrow> real) \<Rightarrow> task_id \<Rightarrow> song_ptr \<Rightarrow> webEvent \<Rightarrow> world \<Rightarrow> world" where
  "deliverWebEvent env rnd t yt event w =
     (case cobalt w t of
        Some AwaitingMetadata \<Rightarrow> cobaltMetadataListener rnd t yt event w
      | Some AwaitingSong \<Rightarrow> cobaltSongListener env rnd t yt event w
      | _ \<Rightarrow> w)"

text \<open>Lines 458--592: the body \<open>runWithCallback\<close> runs.\<close>

definition cobaltRequest :: "string \<Rightarrow> request" where
  "cobaltRequest ytID =
     HttpPostJson ''https://api.cobalt.tools/api/json''
       (JObject [(''url'', JString (''https://www.youtube.com/watch?v='' @ ytID)),
                 (''aFormat'', JString ''mp3''),
                 (''isAudioOnly'', JString ''true'')])"

definition ytTaskBody :: "task_id \<Rightarrow> song_ptr \<Rightarrow> world \<Rightarrow> world" where
  "ytTaskBody t yt w =
     (if length (youtubeID (heap w yt)) \<noteq> 11
      then finish t (Inl ''Invalid YouTube ID'') w
      else startRequest t (cobaltRequest (youtubeID (heap w yt)))
             (w\<lparr>cobalt := (cobalt w)(t \<mapsto> AwaitingMetadata)\<rparr>))"

subsection \<open>Lines 437--448 and 665--669: cancelling, registering, the first event\<close>

text \<open>
  \<open>getFilter().cancel()\<close> belongs to the task framework.  It marks the task cancelled, which
  \<open>hasBeenCancelled()\<close> reads; \<open>deliverNow\<close> says whether the framework hands the
  cancellation to the task's listener before \<open>cancel()\<close> returns, or on a later turn of the
  event loop.
\<close>

definition cancelTask :: "collab \<Rightarrow> bool \<Rightarrow> string \<Rightarrow> task_id \<Rightarrow> world \<Rightarrow> world" where
  "cancelTask env deliverNow ident t w =
     (let w1 = emit (CancelCalled t) (w\<lparr>cancelRequested := (cancelRequested w)(t := True)\<rparr>)
      in if deliverNow then deliverDownloadEvent env ident t Cancelled w1 else w1)"

definition downloadSong :: "collab \<Rightarrow> bool \<Rightarrow> song_ptr \<Rightarrow> world \<Rightarrow> (string + unit) \<times> world" where
  "downloadSong env deliverNow nong w =
     (if songType (heap w nong) = LOCAL
      then (Inl ''Can't download local song'', w)
      else
        (let ident = uid (heap w) nong;
             gdSongID = gdID (metadata (heap w nong));
             w1 = (case m_downloadSongListeners w ident of
                     None \<Rightarrow> w
                   | Some old \<Rightarrow> cancelTask env deliverNow ident (l_task old) w);
             (task, w2) = newTask w1;
             w3 = (if songType (heap w2 nong) = YOUTUBE
                   then ytTaskBody task nong (w2\<lparr>cobalt := (cobalt w2)(task \<mapsto> CobaltAllocated)\<rparr>)
                   else startRequest task (HttpGet (url (heap w2 nong))) w2);
             listener = \<lparr>l_task = task, l_gdSongID = gdSongID, l_id = ident, l_nong = nong\<rparr>;
             w4 = emplaceListener ident listener w3;
             w5 = setProgress ident 0 w4
         in (Inr (), post (SongDownloadProgressEvent gdSongID ident 0) w5)))"

section \<open>IndexManager::getSongDownloadProgress\<close>

text \<open>\<open>Inl\<close> is the \<open>std::out_of_range\<close> that \<open>m_downloadProgress.at\<close> throws.\<close>

definition getSongDownloadProgress :: "world \<Rightarrow> string \<Rightarrow> string + real option" where
  "getSongDownloadProgress w ident =
     (case m_downloadSongListeners w ident of
        None \<Rightarrow> Inr None
      | Some l \<Rightarrow>
          (case m_downloadProgress w ident of
             None \<Rightarrow> Inl ''out_of_range''
           | Some p \<Rightarrow> Inr (Some p)))"

section \<open>IndexManager::loadIndex and IndexManager::fetchIndexes\<close>

text \<open>\<open>path.filename().string()\<close>\<close>

definition filename :: "string \<Rightarrow> string" where
  "filename p = rev (takeWhile (\<lambda>c. c \<noteq> CHR ''/'') (rev p))"

text \<open>
  Lines 63--166.  \<open>IndexFileLoaded p c\<close> records the call and what the file at \<open>p\<close> holds
  when \<open>loadIndex\<close> looks (\<open>None\<close>: no such file).
\<close>

definition loadIndex :: "collab \<Rightarrow> string \<Rightarrow> world \<Rightarrow> (string + unit) \<times> world" where
  "loadIndex env p w =
     (let w0 = emit (IndexFileLoaded p (files w p)) w
      in case files w p of
           None \<Rightarrow> (Inl ''Index file does not exist'', w0)
         | Some contents \<Rightarrow>
             if \<not> canOpenForRead env p
             then (Inl (''Couldn't open file: '' @ filename p), w0)
             else
               (case jsonParse env contents of
                  Inl err \<Rightarrow> (Inl err, w0)
                | Inr jsonObj \<Rightarrow>
                    (case indexMetadataFromJson env jsonObj of
                       Inl err \<Rightarrow> (Inl err, w0)
                     | Inr index \<Rightarrow>
                         (case addIndexSongs env jsonObj (heap w0) (m_indexNongs w0) of
                            (h, nongs, errs) \<Rightarrow>
                              (Inr (),
                               foldl (\<lambda>w' err. post (SongErrorEvent False err) w')
                                 (w0\<lparr>heap := h, m_indexNongs := nongs\<rparr>) errs)))))"

text \<open>Lines 199--235: the mapper of the fetch task.\<close>

definition fetchMap ::
  "collab \<Rightarrow> string \<Rightarrow> IndexSource \<Rightarrow> WebResponse \<Rightarrow> world \<Rightarrow> (string + unit) \<times> world" where
  "fetchMap env filepath index response w =
     (case (if r_ok response then r_string response else None) of
        None \<Rightarrow> (Inl ''Web request failed'', w)
      | Some body \<Rightarrow>
          (case jsonParse env body of
             Inl err \<Rightarrow> (Inl err, w)
           | Inr parsed \<Rightarrow>
               if \<not> isObject parsed
               then (Inl ''Index supposed to be an object'', w)
               else
                 (let jsonObj = jsonSet parsed ''url'' (JString (m_url index))
                  in case indexMetadataFromJson env jsonObj of
                       Inl err \<Rightarrow> (Inl err, w)
                     | Inr indexRes \<Rightarrow>
                         if \<not> canOpenForWrite env filepath
                         then (Inl (''Couldn't open file: '' @ filepath), w)
                         else (Inr (),
                               emit (FileWritten filepath (jsonDump env jsonObj))
                                 (w\<lparr>files := (files w)(filepath \<mapsto> jsonDump env jsonObj)\<rparr>)))))"

text \<open>Lines 240--262: the listener of the fetch task.\<close>

definition fetchListener :: "collab \<Rightarrow> FetchListener \<Rightarrow> fetchEvent \<Rightarrow> world \<Rightarrow> world" where
  "fetchListener env l event w =
     (case event of
        Progress progress \<Rightarrow> w
      | _ \<Rightarrow>
          (let w1 = w\<lparr>m_indexListeners := (m_indexListeners w)(m_url (f_index l) := None)\<rparr>;
               w2 = (case event of
                       Value (Inl err) \<Rightarrow> post (SongErrorEvent False (''Failed to fetch index: '' @ err)) w1
                     | _ \<Rightarrow> w1)
           in case loadIndex env (f_filepath l) w2 of
                (Inl err, w3) \<Rightarrow>
                  if err \<noteq> [] then post (SongErrorEvent False (''Failed to load index: '' @ err)) w3
                  else w3
              | (Inr u, w3) \<Rightarrow> w3))"

text \<open>
  The response of a fetch arrives: the framework runs the mapper on it and hands the mapped
  value to the listener registered for the URL.
\<close>

definition fetchCompleted :: "collab \<Rightarrow> string \<Rightarrow> WebResponse \<Rightarrow> world \<Rightarrow> world" where
  "fetchCompleted env u response w =
     (case m_indexListeners w u of
        None \<Rightarrow> w
      | Some l \<Rightarrow>
          (case fetchMap env (f_filepath l) (f_index l) response w of
             (result, w1) \<Rightarrow> fetchListener env l (Value result) w1))"

text \<open>Lines 179--265: one turn of the loop over the configured sources.\<close>

definition fetchIndexStep :: "collab \<Rightarrow> world \<Rightarrow> IndexSource \<Rightarrow> world" where
  "fetchIndexStep env w index =
     (if \<not> m_enabled index \<or> length (m_url index) < 3
      then w
      else
        (let filepath = indexCacheFile env (m_url index);
             (task, w1) = newTask w;
             w2 = startRequest task (HttpGet (m_url index)) w1
         in emplaceIndexListener (m_url index)
              \<lparr>f_task = task, f_index = index, f_filepath = filepath\<rparr> w2))"

text \<open>Lines 168--268; \<open>getIndexes\<close> (lines 48--55) always returns the setting.\<close>

definition fetchIndexes :: "collab \<Rightarrow> world \<Rightarrow> (string + unit) \<times> world" where
  "fetchIndexes env w =
     (let w1 = w\<lparr>m_indexListeners := Map.empty,
                 m_indexNongs := Map.empty,
                 m_downloadSongListeners := Map.empty\<rparr>
      in (Inr (), foldl (fetchIndexStep env) w1 (indexesSetting env)))"

section \<open>Reading the effects\<close>

text \<open>The effects a step adds to those of the world it starts from.\<close>

definition newEffects :: "world \<Rightarrow> world \<Rightarrow> effect list" where
  "newEffects w w' = drop (length (trace w)) (trace w')"

fun isStateChanged :: "effect \<Rightarrow> bool" where
  "isStateChanged (Posted (SongStateChangedEvent g)) = True"
| "isStateChanged e = False"

fun isErrorEvent :: "effect \<Rightarrow> bool" where
  "isErrorEvent (Posted (SongErrorEvent b m)) = True"
| "isErrorEvent e = False"

fun isRequested :: "effect \<Rightarrow> bool" where
  "isRequested (Requested t r) = True"
| "isRequested e = False"



fun isTerminal :: "('p, 'v) taskEvent \<Rightarrow> bool" where
  "isTerminal (Progress p) = False"
| "isTerminal e = True"


text \<open>The events of one download task, handed to its listener in order.\<close>

definition runDownloadListener ::
  "collab \<Rightarrow> DownloadListener \<Rightarrow> downloadEvent list \<Rightarrow> world \<Rightarrow> world" where
  "runDownloadListener env l events w = foldl (\<lambda>w' e. downloadListener env l e w') w events"

text \<open>The events of one download task, as the framework hands them over, in order.\<close>

definition deliverDownloadEvents ::
  "collab \<Rightarrow> string \<Rightarrow> task_id \<Rightarrow> downloadEvent list \<Rightarrow> world \<Rightarrow> world" where
  "deliverDownloadEvents env ident t events w =
     foldl (\<lambda>w' e. deliverDownloadEvent env ident t e w') w events"


text \<open>
  The steps of the mapper of lines 199--235 that can fail: the transport or the status
  (\<open>ok()\<close>), the body as text, the parse, the object test, the schema, opening the file.
\<close>

definition fetchStepFails :: "collab \<Rightarrow> string \<Rightarrow> IndexSource \<Rightarrow> WebResponse \<Rightarrow> bool" where
  "fetchStepFails env filepath index response =
     (if r_ok response
      then (case r_string response of
              None \<Rightarrow> True
            | Some body \<Rightarrow>
                (case jsonParse env body of
                   Inl err \<Rightarrow> True
                 | Inr parsed \<Rightarrow>
                     if isObject parsed
                     then (case indexMetadataFromJson env (jsonSet parsed ''url'' (JString (m_url index))) of
                             Inl err \<Rightarrow> True
                           | Inr indexRes \<Rightarrow> \<not> canOpenForWrite env filepath)
                     else True))
      else True)"

text \<open>
  What the mapper writes for a parsed body: the serialization of the object with the URL of
  the source set under \<open>url\<close> (lines 214 and 228).
\<close>

definition canonicalIndex :: "collab \<Rightarrow> IndexSource \<Rightarrow> json \<Rightarrow> string" where
  "canonicalIndex env index parsed = jsonDump env (jsonSet parsed ''url'' (JString (m_url index)))"

section \<open>The arithmetic of \<open>float\<close>\<close>

text \<open>
  \<open>float\<close> is IEEE 754 binary32, and an operation on \<open>float\<close>s is the real operation
  followed by the rounding to the nearest binary32 number, a tie going to the even
  significand.  \<open>float32\<close> is that rounding.  A number whose binary exponent is \<open>e\<close> is
  rounded to a multiple of \<open>2 powi (e - 23)\<close> (a significand of 24 bits); the exponent is at least
  \<open>-126\<close>, where the subnormal numbers begin, and at most 127.  The overflow to infinity is
  left out: \<open>float32\<close> is the rounding of numbers below \<open>2 powi 128\<close>, and the numbers in the
  progress formulas do not exceed 100.
\<close>

definition roundTiesToEven :: "real \<Rightarrow> int" where
  "roundTiesToEven q =
     (let f = \<lfloor>q\<rfloor>; r = q - of_int f
      in if r < 1 / 2 then f else if 1 / 2 < r then f + 1 else if even f then f else f + 1)"

text \<open>
  The largest \<open>e\<close> among \<open>e\<close>, \<open>e - 1\<close>, \<dots>, \<open>e - n + 1\<close> with \<open>2 powi e \<le> \<bar>x\<bar>\<close>, and \<open>e - n\<close>
  when there is none.
\<close>

fun exponentFrom :: "nat \<Rightarrow> int \<Rightarrow> real \<Rightarrow> int" where
  "exponentFrom 0 e x = e"
| "exponentFrom (Suc n) e x = (if 2 powi e \<le> \<bar>x\<bar> then e else exponentFrom n (e - 1) x)"

definition exponent32 :: "real \<Rightarrow> int" where
  "exponent32 x = exponentFrom 253 127 x"

definition float32 :: "real \<Rightarrow> real" where
  "float32 x =
     (let ulp = 2 powi (exponent32 x - 23) in of_int (roundTiesToEven (x / ulp)) * ulp)"

section \<open>Example data\<close>

definition exSong :: "string \<Rightarrow> NongType \<Rightarrow> string option \<Rightarrow> string \<Rightarrow> string \<Rightarrow> Song" where
  "exSong u t ix n yt =
     \<lparr>metadata = \<lparr>gdID = 42, uniqueID = u, name = n, artist = ''artist'', level = None,
                   startOffset = 0\<rparr>,
      songType = t, path = None, indexID = ix, url = ''https://host/song.mp3'', youtubeID = yt\<rparr>"

text \<open>
  Address 0 is a default song; 1 a YouTube song without \<open>indexID\<close>; 2 and 3 two YouTube
  songs with the \<open>uniqueID\<close> of 1 and an \<open>indexID\<close>; 4 a Hosted song with that \<open>uniqueID\<close>; 5
  a Hosted song of its own; 6 a YouTube song whose video id has five characters; every
  other address a Hosted song that carries the \<open>uniqueID\<close> of the default song.
\<close>

definition exHeap :: heap where
  "exHeap p =
     (if p = 0 then exSong ''default'' LOCAL None ''Default'' []
      else if p = 1 then exSong ''a1'' YOUTUBE None ''Song A'' ''dQw4w9WgXcQ''
      else if p = 2 then exSong ''a1'' YOUTUBE (Some ''idx'') ''Song A'' ''dQw4w9WgXcQ''
      else if p = 3 then exSong ''a1'' YOUTUBE (Some ''idx'') ''Song A'' ''dQw4w9WgXcQ''
      else if p = 4 then exSong ''a1'' HOSTED (Some ''idx'') ''Song A'' []
      else if p = 5 then exSong ''b2'' HOSTED None ''Song B'' []
      else if p = 6 then exSong ''c3'' YOUTUBE None ''Song C'' ''short''
      else exSong ''default'' HOSTED (Some ''idx'') ''Song D'' [])"

definition exNongs :: "song_ptr \<Rightarrow> song_ptr list \<Rightarrow> song_ptr list \<Rightarrow> Nongs" where
  "exNongs d yts hs = \<lparr>defaultSong = d, locals = [], youtube = yts, hosted = hs\<rparr>"

definition exStore :: "Nongs \<Rightarrow> (int \<rightharpoonup> Nongs)" where
  "exStore nongs = [42 \<mapsto> nongs]"

definition exEnv :: collab where
  "exEnv =
     \<lparr>generateSongFilePath = (\<lambda>fs ext. ''nongs/1.'' @ ext),
      setActiveSong = (\<lambda>g i. Inr ()),
      indexesSetting = [\<lparr>m_url = ''https://index/a.json'', m_enabled = True\<rparr>],
      indexCacheFile = (\<lambda>u. ''cache/'' @ u),
      jsonParse = (\<lambda>s. if s = ''{}'' then Inr (JObject []) else Inl ''parse error''),
      jsonDump = (\<lambda>j. ''dumped''),
      indexMetadataFromJson = (\<lambda>j. Inr ()),
      canOpenForWrite = (\<lambda>p. True),
      canOpenForRead = (\<lambda>p. True),
      addIndexSongs = (\<lambda>j h nongs. (h, nongs, []))\<rparr>"

definition exWorld :: world where
  "exWorld =
     \<lparr>heap = exHeap, files = Map.empty, m_indexNongs = Map.empty, m_indexListeners = Map.empty,
      m_downloadSongListeners = Map.empty, m_downloadProgress = Map.empty, cobalt = Map.empty,
      cancelRequested = (\<lambda>t. False), finished = Map.empty, nextTask = 0, trace = []\<rparr>"

text \<open>The listener \<open>downloadSong\<close> builds for the Hosted song at address 5 and task 0.\<close>

definition exListener :: DownloadListener where
  "exListener = \<lparr>l_task = 0, l_gdSongID = 42, l_id = ''b2'', l_nong = 5\<rparr>"

text \<open>The example world after \<open>downloadSong\<close> started a download of the song at address 5.\<close>

definition exDownloading :: world where
  "exDownloading = snd (downloadSong exEnv False 5 exWorld)"

text \<open>The example world after \<open>fetchIndexes\<close> started the fetch of the configured source.\<close>

definition exFetching :: world where
  "exFetching = snd (fetchIndexes exEnv exWorld)"


definition exResponse :: "bool \<Rightarrow> string \<Rightarrow> json option \<Rightarrow> WebResponse" where
  "exResponse isOk body js = \<lparr>r_ok = isOk, r_data = body, r_string = Some body, r_json = js\<rparr>"

section \<open>Properties\<close>

subsection \<open>The merged vector\<close>

lemma set_addedFor:
  "set (addedFor h (Some ixs) s) =
     (if indexID (h s) \<noteq> None \<and> (\<exists>i\<in>set ixs. uid h i = uid h s) then {uid h s} else {})"
  by (auto simp: addedFor_def image_iff)

lemma in_addedIndexSongs:
  "u \<in> set (addedIndexSongs h lo (Some ix)) \<longleftrightarrow>
     (\<exists>l\<in>set (youtube lo). indexID (h l) \<noteq> None \<and> uid h l = u \<and>
        (\<exists>i\<in>set (youtube ix). uid h i = u)) \<or>
     (\<exists>l\<in>set (hosted lo). indexID (h l) \<noteq> None \<and> uid h l = u \<and>
        (\<exists>i\<in>set (hosted ix). uid h i = u))"
  by (auto simp: addedIndexSongs_def set_addedFor split: if_splits)

lemma mergedNongs_shape:
  "mergedNongs h lo ixo =
     localSongs lo @ filter (\<lambda>j. uid h j \<notin> set (addedIndexSongs h lo ixo)) (indexSongs ixo)"
  by (simp add: mergedNongs_def localSongs_def indexSongs_def notAdded_def Let_def
           split: option.splits)

lemma addedIndexSongs_None: "addedIndexSongs h lo None = []"
  by (simp add: addedIndexSongs_def addedFor_def)

lemma in_addedIndexSongs_option:
  "u \<in> set (addedIndexSongs h lo ixo) \<longleftrightarrow>
     (\<exists>ix. ixo = Some ix \<and>
        ((\<exists>l\<in>set (youtube lo). indexID (h l) \<noteq> None \<and> uid h l = u \<and>
            (\<exists>i\<in>set (youtube ix). uid h i = u)) \<or>
         (\<exists>l\<in>set (hosted lo). indexID (h l) \<noteq> None \<and> uid h l = u \<and>
            (\<exists>i\<in>set (hosted ix). uid h i = u))))"
  by (cases ixo) (simp_all add: addedIndexSongs_None in_addedIndexSongs)

lemma distinct_map_mset: "mset ys = mset xs \<Longrightarrow> distinct (map f xs) \<Longrightarrow> distinct (map f ys)"
  by (metis mset_eq_imp_distinct_iff mset_map)

subsection \<open>The insertion sort\<close>

text \<open>Whatever the comparator, the sorted range is a permutation of the range.\<close>

lemma mset_linearInsert: "mset (linearInsert cmp v xs) = add_mset v (mset xs)"
  by (induction xs) simp_all

lemma mset_insertStep: "mset (insertStep cmp xs v) = add_mset v (mset xs)"
  by (simp add: insertStep_def mset_linearInsert split: list.splits)

lemma mset_foldl_insertStep: "mset (foldl (insertStep cmp) acc xs) = mset acc + mset xs"
  by (induction xs arbitrary: acc) (simp_all add: mset_insertStep)

lemma mset_stdSort: "mset (stdSort cmp xs) = mset xs"
  by (simp add: stdSort_def mset_foldl_insertStep)

lemma set_stdSort: "set (stdSort cmp xs) = set xs"
  by (metis mset_stdSort set_mset_mset)

text \<open>
  A first element \<open>d\<close> stays first as long as no later element \<open>v\<close> has \<open>comp(v, d)\<close>.
\<close>

lemma linearInsert_keeps_last:
  "\<not> cmp v d \<Longrightarrow> \<exists>ys'. linearInsert cmp v (ys @ [d]) = ys' @ [d]"
proof (induction ys)
  case Nil
  then show ?case by simp
next
  case (Cons y ys)
  then obtain ys' where ih: "linearInsert cmp v (ys @ [d]) = ys' @ [d]" by blast
  show ?case
  proof (cases "cmp v y")
    case True
    then have "linearInsert cmp v ((y # ys) @ [d]) = (y # ys') @ [d]" using ih by simp
    then show ?thesis by blast
  next
    case False
    then have "linearInsert cmp v ((y # ys) @ [d]) = (v # y # ys) @ [d]" by simp
    then show ?thesis by blast
  qed
qed

lemma insertStep_keeps_first:
  assumes "\<not> cmp v d"
  shows "\<exists>r'. insertStep cmp (d # r) v = d # r'"
proof -
  obtain ys' where "linearInsert cmp v (rev r @ [d]) = ys' @ [d]"
    using linearInsert_keeps_last [of cmp v d "rev r"] assms by blast
  then show ?thesis using assms by (simp add: insertStep_def)
qed

lemma foldl_insertStep_keeps_first:
  "\<forall>v\<in>set xs. \<not> cmp v d \<Longrightarrow> \<exists>r'. foldl (insertStep cmp) (d # r) xs = d # r'"
proof (induction xs arbitrary: r)
  case Nil
  then show ?case by simp
next
  case (Cons x xs)
  then obtain r1 where "insertStep cmp (d # r) x = d # r1"
    using insertStep_keeps_first [of cmp x d r] by auto
  then show ?case using Cons by simp
qed

lemma stdSort_keeps_first:
  assumes "\<forall>v\<in>set xs. \<not> cmp v d"
  shows "\<exists>r'. stdSort cmp (d # xs) = d # r'"
  using foldl_insertStep_keeps_first [of xs cmp d "[]"] assms
  by (simp add: stdSort_def insertStep_def)

text \<open>
  When the comparator is the strict order of a linearly ordered key, the sort meets the
  postcondition of \<open>std::sort\<close>.
\<close>

lemma set_linearInsert: "set (linearInsert cmp v xs) = insert v (set xs)"
  by (metis mset_linearInsert set_mset_add_mset_insert set_mset_mset)

lemma sorted_linearInsert:
  fixes key :: "'a \<Rightarrow> 'k::linorder"
  assumes c: "\<And>a b. cmp a b \<longleftrightarrow> key a < key b"
  shows "sorted (map key (rev r)) \<Longrightarrow> sorted (map key (rev (linearInsert cmp v r)))"
proof (induction r)
  case Nil
  then show ?case by simp
next
  case (Cons y ys)
  have s: "sorted (map key (rev ys))" and le: "\<forall>x\<in>set ys. key x \<le> key y"
    using Cons.prems by (auto simp: sorted_append)
  show ?case
  proof (cases "cmp v y")
    case True
    then have "key v < key y" using c by simp
    then have "\<forall>x\<in>set (linearInsert cmp v ys). key x \<le> key y"
      using le by (auto simp: set_linearInsert)
    then show ?thesis using True Cons.IH [OF s] by (auto simp: sorted_append)
  next
    case False
    then have "key y \<le> key v" using c by (simp add: not_less)
    then show ?thesis using False s le by (auto simp: sorted_append)
  qed
qed

lemma sorted_insertStep:
  fixes key :: "'a \<Rightarrow> 'k::linorder"
  assumes c: "\<And>a b. cmp a b \<longleftrightarrow> key a < key b"
    and s: "sorted (map key acc)"
  shows "sorted (map key (insertStep cmp acc v))"
proof (cases acc)
  case Nil
  then show ?thesis by (simp add: insertStep_def)
next
  case (Cons first rest)
  show ?thesis
  proof (cases "cmp v first")
    case True
    then have "key v < key first" using c by simp
    then show ?thesis using True s Cons by (auto simp: insertStep_def)
  next
    case False
    have "sorted (map key (rev (rev acc)))" using s by simp
    then have "sorted (map key (rev (linearInsert cmp v (rev acc))))"
      by (rule sorted_linearInsert [OF c])
    then show ?thesis using False Cons by (simp add: insertStep_def)
  qed
qed

lemma sorted_stdSort:
  fixes key :: "'a \<Rightarrow> 'k::linorder"
  assumes c: "\<And>a b. cmp a b \<longleftrightarrow> key a < key b"
  shows "sorted (map key (stdSort cmp xs))"
proof -
  have "sorted (map key acc) \<Longrightarrow> sorted (map key (foldl (insertStep cmp) acc xs))" for acc
  proof (induction xs arbitrary: acc)
    case Nil
    then show ?case by simp
  next
    case (Cons x xs)
    then show ?case by (simp add: sorted_insertStep [OF c])
  qed
  then show ?thesis by (simp add: stdSort_def)
qed

lemma stdSort_meets_post:
  fixes key :: "'a \<Rightarrow> 'k::linorder"
  assumes c: "\<And>a b. cmp a b \<longleftrightarrow> key a < key b"
  shows "stdSortPost cmp xs (stdSort cmp xs)"
proof -
  have "sorted_wrt (\<lambda>a b. key a \<le> key b) (stdSort cmp xs)"
    using sorted_stdSort [OF c] by (simp add: sorted_map)
  then have "sorted_wrt (\<lambda>a b. \<not> cmp b a) (stdSort cmp xs)"
    by (rule sorted_wrt_mono_rel [rotated]) (simp add: c not_less)
  then show ?thesis by (simp add: stdSortPost_def mset_stdSort)
qed

subsection \<open>The returned list and the index variants\<close>

text \<open>
  C1 (amended).  For a song id the local store knows, the list \<open>getNongs\<close> returns holds
  every variant of the local store, and holds an index variant exactly when its \<open>uniqueID\<close>
  is not recorded in \<open>addedIndexSongs\<close> (each as often as the merge pushes it).  A
  \<open>uniqueID\<close> is recorded exactly when the index table has an entry for the song id and
  either a local YouTube variant that carries an \<open>indexID\<close> and a YouTube index variant both
  have it, or a local Hosted variant that carries an \<open>indexID\<close> and a Hosted index variant
  both have it.  So when a local YouTube (Hosted) variant that carries an \<open>indexID\<close> shares
  its \<open>uniqueID\<close> with an index variant of the same kind, the list holds the local copy and
  holds that \<open>uniqueID\<close> only on variants of the local store: the index variants of either
  kind with that \<open>uniqueID\<close> are left out.  When moreover the \<open>uniqueID\<close>s are pairwise
  distinct within the local collection and within the index collection, and every
  \<open>uniqueID\<close> the two share is recorded, no two variants of the returned list share a
  \<open>uniqueID\<close>.
\<close>

theorem getNongs_local_copy_only:
  assumes loc: "localStore gdSongID = Some lo"
  shows "\<exists>res. getNongs fsExists h localStore indexTable gdSongID = Inr res \<and>
           mset res =
             mset (localSongs lo) +
             mset (filter (\<lambda>j. uid h j \<notin> set (addedIndexSongs h lo (indexTable gdSongID)))
                     (indexSongs (indexTable gdSongID))) \<and>
           (\<forall>u. u \<in> set (addedIndexSongs h lo (indexTable gdSongID)) \<longleftrightarrow>
              (\<exists>ix. indexTable gdSongID = Some ix \<and>
                 ((\<exists>l\<in>set (youtube lo). indexID (h l) \<noteq> None \<and> uid h l = u \<and>
                     (\<exists>i\<in>set (youtube ix). uid h i = u)) \<or>
                  (\<exists>l\<in>set (hosted lo). indexID (h l) \<noteq> None \<and> uid h l = u \<and>
                     (\<exists>i\<in>set (hosted ix). uid h i = u))))) \<and>
           (\<forall>j. j \<in> set res \<longleftrightarrow>
              j \<in> set (localSongs lo) \<or>
              j \<in> set (indexSongs (indexTable gdSongID)) \<and>
              uid h j \<notin> set (addedIndexSongs h lo (indexTable gdSongID))) \<and>
           (\<forall>ix l i.
              indexTable gdSongID = Some ix \<and>
              ((l \<in> set (youtube lo) \<and> i \<in> set (youtube ix)) \<or>
               (l \<in> set (hosted lo) \<and> i \<in> set (hosted ix))) \<and>
              indexID (h l) \<noteq> None \<and> uid h i = uid h l \<longrightarrow>
                l \<in> set res \<and>
                (\<forall>j\<in>set res. uid h j = uid h l \<longrightarrow> j \<in> set (localSongs lo))) \<and>
           (distinct (map (uid h) (localSongs lo)) \<and>
            distinct (map (uid h) (indexSongs (indexTable gdSongID))) \<and>
            (\<forall>j\<in>set (indexSongs (indexTable gdSongID)). \<forall>k\<in>set (localSongs lo).
               uid h j = uid h k \<longrightarrow>
                 uid h j \<in> set (addedIndexSongs h lo (indexTable gdSongID))) \<longrightarrow>
              distinct (map (uid h) res))"
proof -
  let ?ixo = "indexTable gdSongID"
  let ?added = "addedIndexSongs h lo ?ixo"
  let ?m = "mergedNongs h lo ?ixo"
  let ?cmp = "\<lambda>a b. sortLambda fsExists (uid h (defaultSong lo)) (h a) (h b)"
  let ?res = "stdSort ?cmp ?m"
  have ret: "getNongs fsExists h localStore indexTable gdSongID = Inr ?res"
    using loc by (simp add: getNongs_def)
  have ms: "mset ?res = mset ?m" by (rule mset_stdSort)
  have ms': "mset ?res = mset (localSongs lo) +
               mset (filter (\<lambda>j. uid h j \<notin> set ?added) (indexSongs ?ixo))"
    unfolding ms by (simp add: mergedNongs_shape)
  have sres: "set ?res = set (localSongs lo) \<union> {j \<in> set (indexSongs ?ixo). uid h j \<notin> set ?added}"
    using set_stdSort [of ?cmp ?m] by (auto simp: mergedNongs_shape)
  have mem: "\<forall>j. j \<in> set ?res \<longleftrightarrow>
              j \<in> set (localSongs lo) \<or> j \<in> set (indexSongs ?ixo) \<and> uid h j \<notin> set ?added"
    unfolding sres by blast
  have chr: "\<forall>u. u \<in> set ?added \<longleftrightarrow>
              (\<exists>ix. ?ixo = Some ix \<and>
                 ((\<exists>l\<in>set (youtube lo). indexID (h l) \<noteq> None \<and> uid h l = u \<and>
                     (\<exists>i\<in>set (youtube ix). uid h i = u)) \<or>
                  (\<exists>l\<in>set (hosted lo). indexID (h l) \<noteq> None \<and> uid h l = u \<and>
                     (\<exists>i\<in>set (hosted ix). uid h i = u))))"
    using in_addedIndexSongs_option [of _ h lo ?ixo] by blast
  have pair: "l \<in> set ?res \<and> (\<forall>j\<in>set ?res. uid h j = uid h l \<longrightarrow> j \<in> set (localSongs lo))"
    if a: "?ixo = Some ix \<and>
           ((l \<in> set (youtube lo) \<and> i \<in> set (youtube ix)) \<or>
            (l \<in> set (hosted lo) \<and> i \<in> set (hosted ix))) \<and>
           indexID (h l) \<noteq> None \<and> uid h i = uid h l" for ix l i
  proof -
    have added: "uid h l \<in> set ?added"
      unfolding in_addedIndexSongs_option using a by blast
    have l_loc: "l \<in> set (localSongs lo)" using a by (auto simp: localSongs_def)
    show ?thesis using l_loc added sres by auto
  qed
  have dist: "distinct (map (uid h) ?res)"
    if b: "distinct (map (uid h) (localSongs lo)) \<and>
           distinct (map (uid h) (indexSongs ?ixo)) \<and>
           (\<forall>j\<in>set (indexSongs ?ixo). \<forall>k\<in>set (localSongs lo).
              uid h j = uid h k \<longrightarrow> uid h j \<in> set ?added)"
  proof -
    have disj: "uid h k \<noteq> uid h j"
      if "k \<in> set (localSongs lo)" "j \<in> set (indexSongs ?ixo)" "uid h j \<notin> set ?added" for k j
      using b that by metis
    have "distinct (map (uid h) ?m)"
      unfolding mergedNongs_shape using b disj by (auto simp: distinct_map_filter)
    then show ?thesis using ms distinct_map_mset by blast
  qed
  show ?thesis using ret ms' chr mem pair dist by blast
qed

lemma exHeap_simps:
  "exHeap 0 = exSong ''default'' LOCAL None ''Default'' []"
  "exHeap 1 = exSong ''a1'' YOUTUBE None ''Song A'' ''dQw4w9WgXcQ''"
  "exHeap (Suc 0) = exSong ''a1'' YOUTUBE None ''Song A'' ''dQw4w9WgXcQ''"
  "exHeap 2 = exSong ''a1'' YOUTUBE (Some ''idx'') ''Song A'' ''dQw4w9WgXcQ''"
  "exHeap 3 = exSong ''a1'' YOUTUBE (Some ''idx'') ''Song A'' ''dQw4w9WgXcQ''"
  "exHeap 4 = exSong ''a1'' HOSTED (Some ''idx'') ''Song A'' []"
  "exHeap 5 = exSong ''b2'' HOSTED None ''Song B'' []"
  "exHeap 6 = exSong ''c3'' YOUTUBE None ''Song C'' ''short''"
  "exHeap 7 = exSong ''default'' HOSTED (Some ''idx'') ''Song D'' []"
  by (simp_all add: exHeap_def)

lemmas getNongs_eval = getNongs_def stdSort_def insertStep_def mergedNongs_def addedIndexSongs_def
  addedFor_def notAdded_def sortLambda_def compareTail_def pathExists_def sortedNongType_def
  uid_def exHeap_simps exSong_def exNongs_def exStore_def localSongs_def indexSongs_def

text \<open>
  C1, witness: the local store holds the YouTube song at address 3, downloaded from an
  index; the index table holds its YouTube twin at address 2 and a Hosted variant with the
  same \<open>uniqueID\<close> at address 4.  The \<open>uniqueID\<close> is recorded through the YouTube pair, and
  neither index variant is returned.
\<close>

theorem getNongs_local_copy_only_witness:
  "exStore (exNongs 0 [3] []) 42 = Some (exNongs 0 [3] []) \<and>
   getNongs (\<lambda>p. False) exHeap (exStore (exNongs 0 [3] [])) (exStore (exNongs 9 [2] [4])) 42 =
     Inr [0, 3] \<and>
   3 \<in> set (youtube (exNongs 0 [3] [])) \<and> 2 \<in> set (youtube (exNongs 9 [2] [4])) \<and>
   4 \<in> set (hosted (exNongs 9 [2] [4])) \<and>
   indexID (exHeap 3) \<noteq> None \<and> uid exHeap 2 = uid exHeap 3 \<and> uid exHeap 4 = uid exHeap 3 \<and>
   uid exHeap 3 \<in> set (addedIndexSongs exHeap (exNongs 0 [3] []) (Some (exNongs 9 [2] [4]))) \<and>
   3 \<in> set [0, 3::nat] \<and> 2 \<notin> set [0, 3::nat] \<and> 4 \<notin> set [0, 3::nat] \<and>
   distinct (map (uid exHeap) [0, 3])"
proof -
  have loc: "exStore (exNongs 0 [3] []) 42 = Some (exNongs 0 [3] [])"
    by (simp add: exStore_def)
  show ?thesis
    using loc
      getNongs_local_copy_only [where localStore = "exStore (exNongs 0 [3] [])" and gdSongID = 42
        and lo = "exNongs 0 [3] []" and fsExists = "\<lambda>p. False" and h = exHeap
        and indexTable = "exStore (exNongs 9 [2] [4])"]
    by (simp add: getNongs_eval)
qed

text \<open>
  C1, counterexample to the claim as stated.  First, a local YouTube variant without an
  \<open>indexID\<close> (address 1) and an index YouTube variant with the same \<open>uniqueID\<close> (address
  2): the returned list holds both.  Second, a local YouTube variant with an \<open>indexID\<close>
  (address 3) and a Hosted index variant with the same \<open>uniqueID\<close> (address 4), with no
  YouTube index variant of that \<open>uniqueID\<close>: again both are returned.
\<close>

theorem getNongs_duplicate_counterexample:
  "getNongs (\<lambda>p. False) exHeap (exStore (exNongs 0 [1] [])) (exStore (exNongs 9 [2] [])) 42 =
     Inr [0, 1, 2] \<and>
   1 \<in> set (youtube (exNongs 0 [1] [])) \<and> 2 \<in> set (youtube (exNongs 9 [2] [])) \<and>
   uid exHeap 1 = uid exHeap 2 \<and> indexID (exHeap 1) = None \<and>
   \<not> distinct (map (uid exHeap) [0, 1, 2]) \<and>
   getNongs (\<lambda>p. False) exHeap (exStore (exNongs 0 [3] [])) (exStore (exNongs 9 [] [4])) 42 =
     Inr [0, 4, 3] \<and>
   3 \<in> set (youtube (exNongs 0 [3] [])) \<and> 4 \<in> set (hosted (exNongs 9 [] [4])) \<and>
   uid exHeap 3 = uid exHeap 4 \<and> indexID (exHeap 3) \<noteq> None \<and>
   \<not> distinct (map (uid exHeap) [0, 4, 3])"
  by (simp add: getNongs_eval)

subsection \<open>The comparator\<close>

lemma sortedNongType_inj: "sortedNongType s = sortedNongType t \<longleftrightarrow> s = t"
  by (cases s; cases t) (simp_all add: sortedNongType_def)

text \<open>
  On variants that do not carry the \<open>uniqueID\<close> of the default, the comparator is the
  lexicographic order of the keys \<open>sortKey\<close>: rules (b), (c), (d) and (f); rule (e), at
  lines 412--414, is never reached with a difference left to decide.
\<close>

lemma sortLambda_sortKey:
  assumes "uniqueID (metadata a) \<noteq> d" and "uniqueID (metadata b) \<noteq> d"
  shows "sortLambda fsExists d a b \<longleftrightarrow> sortKey fsExists a < sortKey fsExists b"
  using assms
  by (auto simp: sortLambda_def compareTail_def sortKey_def sortedNongType_inj less_le_not_le)

text \<open>
  When no other variant of the merged vector carries the \<open>uniqueID\<close> of the default, the
  default pushed at line 310 stays the first element: the comparator answers \<open>false\<close> for
  every other variant against it.
\<close>

lemma getNongs_default_first_when_reserved:
  assumes loc: "localStore gdSongID = Some lo"
    and reserved: "\<forall>p\<in>set (locals lo @ youtube lo @ hosted lo @ indexSongs (indexTable gdSongID)).
                     uid h p \<noteq> uid h (defaultSong lo)"
  shows "\<exists>res'. getNongs fsExists h localStore indexTable gdSongID = Inr (defaultSong lo # res') \<and>
           (\<forall>x\<in>set res'. uid h x \<noteq> uid h (defaultSong lo)) \<and>
           mset (defaultSong lo # res') = mset (mergedNongs h lo (indexTable gdSongID))"
proof -
  let ?d = "defaultSong lo"
  let ?m = "mergedNongs h lo (indexTable gdSongID)"
  let ?cmp = "\<lambda>a b. sortLambda fsExists (uid h ?d) (h a) (h b)"
  have shape: "?m = ?d # tl ?m" by (simp add: mergedNongs_def Let_def)
  have rest: "\<forall>p\<in>set (tl ?m). uid h p \<noteq> uid h ?d"
    using reserved by (auto simp: mergedNongs_shape localSongs_def)
  then have "\<forall>v\<in>set (tl ?m). \<not> ?cmp v ?d" by (simp add: sortLambda_def uid_def)
  then obtain r' where r': "stdSort ?cmp (?d # tl ?m) = ?d # r'"
    using stdSort_keeps_first [of "tl ?m" ?cmp ?d] by blast
  then have eq: "stdSort ?cmp ?m = ?d # r'" using shape by simp
  have ms: "mset (?d # r') = mset ?m" using mset_stdSort [of ?cmp ?m] eq by simp
  then have "mset r' = mset (tl ?m)" using shape by (metis add_mset_add_mset_same_iff mset.simps(2))
  then have "set r' = set (tl ?m)" by (metis set_mset_mset)
  then have "\<forall>x\<in>set r'. uid h x \<noteq> uid h ?d" using rest by simp
  then show ?thesis using loc eq ms by (simp add: getNongs_def)
qed

text \<open>
  C3, the code where the claim fails.  The local store holds the default variant (address
  0) alone, and the index table holds a Hosted variant that carries the \<open>uniqueID\<close> of the
  default (address 7).  The merge pushes the default first (line 310) and the index variant
  after it; the sort asks \<open>comp(7, 0)\<close>, lines 377--379 answer \<open>true\<close> because the first
  argument carries the default's \<open>uniqueID\<close>, and the index variant moves to the front.  The
  returned list holds the default exactly once, as its second element.
\<close>

theorem getNongs_default_second:
  "exStore (exNongs 0 [] []) 42 = Some (exNongs 0 [] []) \<and>
   defaultSong (exNongs 0 [] []) = 0 \<and>
   7 \<in> set (hosted (exNongs 9 [] [7])) \<and> uid exHeap 7 = uid exHeap 0 \<and>
   mergedNongs exHeap (exNongs 0 [] []) (exStore (exNongs 9 [] [7]) 42) = [0, 7] \<and>
   sortLambda (\<lambda>p. False) (uid exHeap 0) (exHeap 7) (exHeap 0) \<and>
   getNongs (\<lambda>p. False) exHeap (exStore (exNongs 0 [] [])) (exStore (exNongs 9 [] [7])) 42 =
     Inr [7, 0] \<and>
   hd [7, 0::nat] \<noteq> defaultSong (exNongs 0 [] []) \<and>
   count_list [7, 0::nat] (defaultSong (exNongs 0 [] [])) = 1 \<and>
   filter (\<lambda>p. uid exHeap p = uid exHeap 0) [7, 0] = [7, 0]"
  by (simp add: getNongs_eval)

text \<open>
  C4, the comparator where the claim fails.  The comparator answers \<open>true\<close> for the
  default variant against itself, so it is not irreflexive and no strict weak ordering, for
  every local collection.  When a second variant carries the default's \<open>uniqueID\<close>
  (here the index variant at address 7), it answers \<open>true\<close> both ways, no arrangement of the
  merged vector meets the postcondition of \<open>std::sort\<close>, and the insertion sort returns the
  list with the default behind that variant.
\<close>

theorem sortLambda_relates_default_to_itself:
  "sortLambda fsExists (uid h (defaultSong lo)) (h (defaultSong lo)) (h (defaultSong lo)) \<and>
   sortLambda (\<lambda>p. False) (uid exHeap 0) (exHeap 0) (exHeap 7) \<and>
   sortLambda (\<lambda>p. False) (uid exHeap 0) (exHeap 7) (exHeap 0) \<and>
   mergedNongs exHeap (exNongs 0 [] []) (Some (exNongs 9 [] [7])) = [0, 7] \<and>
   \<not> (\<exists>res. stdSortPost
              (\<lambda>a b. sortLambda (\<lambda>p. False) (uid exHeap (defaultSong (exNongs 0 [] [])))
                       (exHeap a) (exHeap b))
              (mergedNongs exHeap (exNongs 0 [] []) (Some (exNongs 9 [] [7]))) res) \<and>
   getNongs (\<lambda>p. False) exHeap (exStore (exNongs 0 [] [])) (exStore (exNongs 9 [] [7])) 42 =
     Inr [7, 0]"
proof -
  have refl: "sortLambda fsExists (uid h (defaultSong lo)) (h (defaultSong lo)) (h (defaultSong lo))"
    by (simp add: sortLambda_def uid_def)
  have both: "sortLambda (\<lambda>p. False) (uid exHeap 0) (exHeap 0) (exHeap 7)"
    "sortLambda (\<lambda>p. False) (uid exHeap 0) (exHeap 7) (exHeap 0)"
    by (simp_all add: getNongs_eval)
  have m: "mergedNongs exHeap (exNongs 0 [] []) (Some (exNongs 9 [] [7])) = [0, 7]"
    by (simp add: getNongs_eval)
  let ?cmp = "\<lambda>a b. sortLambda (\<lambda>p. False) (uid exHeap (defaultSong (exNongs 0 [] [])))
                       (exHeap a) (exHeap b)"
  have none: "\<not> stdSortPost ?cmp [0, 7] res" for res
  proof
    assume post: "stdSortPost ?cmp [0, 7] res"
    then have ms: "mset res = mset [0, 7::nat]"
      and srt: "sorted_wrt (\<lambda>a b. \<not> ?cmp b a) res"
      by (simp_all add: stdSortPost_def)
    have len: "length res = 2"
      using ms by (metis length_Cons list.size(3) mset_eq_length numeral_2_eq_2)
    then obtain x y where res: "res = [x, y]"
      by (metis (no_types, opaque_lifting) Suc_length_conv length_0_conv numeral_2_eq_2)
    have "set res = {0, 7}" using ms by (metis list.simps(15) empty_set set_mset_mset)
    then have "res = [0, 7] \<or> res = [7, 0] \<or> res = [0, 0] \<or> res = [7, 7]"
      using res by (auto simp: doubleton_eq_iff)
    then show False using srt by (auto simp: getNongs_eval)
  qed
  have ret: "getNongs (\<lambda>p. False) exHeap (exStore (exNongs 0 [] [])) (exStore (exNongs 9 [] [7])) 42 =
     Inr [7, 0]"
    by (simp add: getNongs_eval)
  show ?thesis using refl both none ret unfolding m by blast
qed

subsection \<open>Effects of the primitive statements\<close>

lemmas prim_defs = emit_def post_def setProgress_def eraseProgress_def eraseListener_def
  setIndexID_def startRequest_def

lemma newEffects_append: "trace w' = trace w @ xs \<Longrightarrow> newEffects w w' = xs"
  by (simp add: newEffects_def)

subsection \<open>The listener of the download task\<close>

lemma trace_downloadListener_Progress:
  "trace (downloadListener env l (Progress p) w) =
     trace w @ [ProgressSet (l_id l) p, Posted (SongDownloadProgressEvent (l_gdSongID l) (l_id l) p)]"
  by (simp add: downloadListener_def prim_defs)

lemma trace_downloadListener_terminal:
  assumes "isTerminal event"
  shows "\<exists>mid. trace (downloadListener env l event w) =
           trace w @ ProgressErased (l_id l) # ListenerErased (l_id l) # mid @
             [Posted (SongStateChangedEvent (l_gdSongID l))] \<and>
           filter isStateChanged mid = []"
proof (cases event)
  case (Progress p)
  then show ?thesis using assms by simp
next
  case Cancelled
  then show ?thesis by (simp add: downloadListener_def prim_defs)
next
  case (Value result)
  show ?thesis
  proof (cases result)
    case (Inl err)
    then show ?thesis using Value by (simp add: downloadListener_def prim_defs)
  next
    case (Inr destination)
    show ?thesis
    proof (cases "destination = []")
      case True
      then show ?thesis using Value Inr by (simp add: downloadListener_def prim_defs)
    next
      case False
      then show ?thesis using Value Inr
        by (cases "setActiveSong env (l_gdSongID l) (l_id l)")
           (simp_all add: downloadListener_def prim_defs Let_def)
    qed
  qed
qed

lemma maps_downloadListener_terminal:
  assumes "isTerminal event"
  shows "m_downloadProgress (downloadListener env l event w) (l_id l) = None \<and>
         m_downloadSongListeners (downloadListener env l event w) (l_id l) = None"
  using assms
  by (cases event) (auto simp: downloadListener_def prim_defs Let_def split: sum.splits)

lemma trace_run_progress:
  "trace (runDownloadListener env l (map Progress ps) w) =
     trace w @ concat (map (\<lambda>p. [ProgressSet (l_id l) p,
                                  Posted (SongDownloadProgressEvent (l_gdSongID l) (l_id l) p)]) ps)"
  unfolding runDownloadListener_def
  by (induction ps arbitrary: w) (simp_all add: trace_downloadListener_Progress)

lemma filter_concat_progress:
  "filter isStateChanged
     (concat (map (\<lambda>p. [ProgressSet i p, Posted (SongDownloadProgressEvent g i p)]) ps)) = []"
  by (induction ps) simp_all

text \<open>
  While the listener of a task is registered under its \<open>uniqueID\<close>, the events the framework
  hands over are the events the listener runs on: ticks leave the registration as it is.
\<close>

lemma deliverDownloadEvents_registered:
  assumes "m_downloadSongListeners w (l_id l) = Some l"
  shows "deliverDownloadEvents env (l_id l) (l_task l) (map Progress ps @ [event]) w =
           downloadListener env l event (runDownloadListener env l (map Progress ps) w)"
  using assms
proof (induction ps arbitrary: w)
  case Nil
  then show ?case
    by (simp add: deliverDownloadEvents_def runDownloadListener_def deliverDownloadEvent_def)
next
  case (Cons p ps)
  let ?w1 = "downloadListener env l (Progress p) w"
  have step: "deliverDownloadEvent env (l_id l) (l_task l) (Progress p) w = ?w1"
    using Cons.prems by (simp add: deliverDownloadEvent_def)
  have reg: "m_downloadSongListeners ?w1 (l_id l) = Some l"
    using Cons.prems by (simp add: downloadListener_def prim_defs)
  have "deliverDownloadEvents env (l_id l) (l_task l) (map Progress (p # ps) @ [event]) w =
        deliverDownloadEvents env (l_id l) (l_task l) (map Progress ps @ [event]) ?w1"
    using step by (simp add: deliverDownloadEvents_def)
  also have "\<dots> = downloadListener env l event (runDownloadListener env l (map Progress ps) ?w1)"
    by (rule Cons.IH [OF reg])
  finally show ?case by (simp add: runDownloadListener_def)
qed

text \<open>
  The listener of a task, run on ticks and then on one terminal event: exactly one
  state-changed notification is published, after both entries of the \<open>uniqueID\<close> are erased.
\<close>

lemma runDownloadListener_state_changed_once:
  assumes tm: "isTerminal event"
  shows "\<exists>mid.
     (let w1 = runDownloadListener env l (map Progress ps) w;
          w2 = downloadListener env l event w1
      in filter isStateChanged (newEffects w w2) = [Posted (SongStateChangedEvent (l_gdSongID l))] \<and>
         newEffects w1 w2 =
           ProgressErased (l_id l) # ListenerErased (l_id l) # mid @
             [Posted (SongStateChangedEvent (l_gdSongID l))] \<and>
         filter isStateChanged mid = [] \<and>
         m_downloadProgress w2 (l_id l) = None \<and>
         m_downloadSongListeners w2 (l_id l) = None)"
proof -
  let ?w1 = "runDownloadListener env l (map Progress ps) w"
  let ?w2 = "downloadListener env l event ?w1"
  let ?ticks = "concat (map (\<lambda>p. [ProgressSet (l_id l) p,
                   Posted (SongDownloadProgressEvent (l_gdSongID l) (l_id l) p)]) ps)"
  obtain mid where t2: "trace ?w2 = trace ?w1 @ ProgressErased (l_id l) # ListenerErased (l_id l) # mid @
             [Posted (SongStateChangedEvent (l_gdSongID l))]" and nomid: "filter isStateChanged mid = []"
    using trace_downloadListener_terminal [OF tm] by blast
  have n12: "newEffects ?w1 ?w2 = ProgressErased (l_id l) # ListenerErased (l_id l) # mid @
             [Posted (SongStateChangedEvent (l_gdSongID l))]"
    using t2 by (rule newEffects_append)
  have "trace ?w2 = trace w @ (?ticks @
           ProgressErased (l_id l) # ListenerErased (l_id l) # mid @
             [Posted (SongStateChangedEvent (l_gdSongID l))])"
    using t2 by (simp add: trace_run_progress)
  then have n02: "newEffects w ?w2 = ?ticks @
           ProgressErased (l_id l) # ListenerErased (l_id l) # mid @
             [Posted (SongStateChangedEvent (l_gdSongID l))]"
    by (rule newEffects_append)
  have once: "filter isStateChanged (newEffects w ?w2) = [Posted (SongStateChangedEvent (l_gdSongID l))]"
    unfolding n02 using nomid by (simp add: filter_concat_progress)
  show ?thesis
    using once n12 nomid maps_downloadListener_terminal [OF tm, of env l ?w1]
    by (intro exI [of _ mid]) (simp add: Let_def)
qed

text \<open>Ticks handed to a registered listener leave it registered.\<close>

lemma deliverDownloadEvents_ticks_registered:
  assumes "m_downloadSongListeners w (l_id l) = Some l"
  shows "deliverDownloadEvents env (l_id l) (l_task l) (map Progress ps) w =
           runDownloadListener env l (map Progress ps) w \<and>
         m_downloadSongListeners (runDownloadListener env l (map Progress ps) w) (l_id l) = Some l"
  using assms
proof (induction ps arbitrary: w)
  case Nil
  then show ?case by (simp add: deliverDownloadEvents_def runDownloadListener_def)
next
  case (Cons p ps)
  let ?w1 = "downloadListener env l (Progress p) w"
  have step: "deliverDownloadEvent env (l_id l) (l_task l) (Progress p) w = ?w1"
    using Cons.prems by (simp add: deliverDownloadEvent_def)
  have reg: "m_downloadSongListeners ?w1 (l_id l) = Some l"
    using Cons.prems by (simp add: downloadListener_def prim_defs)
  show ?case using Cons.IH [OF reg] step
    by (simp add: deliverDownloadEvents_def runDownloadListener_def)
qed

text \<open>The events of a task whose listener is not the registered one reach nobody.\<close>

lemma deliverDownloadEvents_unregistered:
  assumes "\<forall>l. m_downloadSongListeners w ident = Some l \<longrightarrow> l_task l \<noteq> t"
  shows "deliverDownloadEvents env ident t events w = w"
proof -
  have "deliverDownloadEvent env ident t e w = w" for e
    using assms by (simp add: deliverDownloadEvent_def split: option.splits)
  then have "foldl (\<lambda>w' e. deliverDownloadEvent env ident t e w') w events = w"
    by (induction events) simp_all
  then show ?thesis by (simp add: deliverDownloadEvents_def)
qed

subsection \<open>Starting and ending a download\<close>

lemmas download_defs = downloadSong_def cancelTask_def deliverDownloadEvent_def
  downloadListener_def emplaceListener_def newTask_def ytTaskBody_def finish_def
  hostedCompleted_def hostedMap_def writeFile_def getSongDownloadProgress_def

lemmas ex_defs = exWorld_def exEnv_def exHeap_simps exSong_def uid_def exResponse_def exListener_def

lemma exDownloading_eq:
  "exDownloading =
     \<lparr>heap = exHeap, files = Map.empty, m_indexNongs = Map.empty, m_indexListeners = Map.empty,
      m_downloadSongListeners = [''b2'' \<mapsto> exListener],
      m_downloadProgress = [''b2'' \<mapsto> 0], cobalt = Map.empty,
      cancelRequested = (\<lambda>t. False), finished = Map.empty, nextTask = 1,
      trace = [Requested 0 (HttpGet ''https://host/song.mp3''), ProgressSet ''b2'' 0,
               Posted (SongDownloadProgressEvent 42 ''b2'' 0)]\<rparr>"
  by (simp add: exDownloading_def download_defs prim_defs ex_defs Let_def fun_eq_iff)

text \<open>
  \<open>downloadSong\<close> registers the listener of the task it creates when no listener is
  registered under the \<open>uniqueID\<close> (\<open>emplace\<close> at line 666 inserts).
\<close>

lemma downloadSong_registers:
  assumes "songType (heap w nong) \<noteq> LOCAL"
    and "m_downloadSongListeners w (uid (heap w) nong) = None"
  shows "m_downloadSongListeners (snd (downloadSong env deliverNow nong w)) (uid (heap w) nong) =
           Some \<lparr>l_task = nextTask w, l_gdSongID = gdID (metadata (heap w nong)),
                 l_id = uid (heap w) nong, l_nong = nong\<rparr>"
  using assms
  by (simp add: downloadSong_def Let_def newTask_def ytTaskBody_def finish_def
        emplaceListener_def prim_defs)

text \<open>Such a call of \<open>downloadSong\<close> publishes no state-changed notification.\<close>

lemma downloadSong_fresh_quiet:
  assumes "songType (heap w nong) \<noteq> LOCAL"
    and "m_downloadSongListeners w (uid (heap w) nong) = None"
  shows "filter isStateChanged (newEffects w (snd (downloadSong env deliverNow nong w))) = []"
  using assms
  by (simp add: downloadSong_def Let_def newTask_def ytTaskBody_def finish_def
        emplaceListener_def prim_defs newEffects_def)

text \<open>The world after \<open>fetchIndexes\<close> ran while the download of the song at address 5 was in flight.\<close>

lemma exRefreshed_eq:
  "snd (fetchIndexes exEnv exDownloading) =
     exDownloading\<lparr>m_indexListeners :=
                     [''https://index/a.json'' \<mapsto>
                        \<lparr>f_task = 1,
                         f_index = \<lparr>m_url = ''https://index/a.json'', m_enabled = True\<rparr>,
                         f_filepath = ''cache/https://index/a.json''\<rparr>],
                   m_indexNongs := Map.empty, m_downloadSongListeners := Map.empty,
                   nextTask := 2,
                   trace := trace exDownloading @ [Requested 1 (HttpGet ''https://index/a.json'')]\<rparr>"
  by (simp add: exDownloading_eq fetchIndexes_def fetchIndexStep_def newTask_def
        emplaceIndexListener_def prim_defs exEnv_def Let_def fun_eq_iff)

text \<open>
  C8 (amended).  For every download task whose listener is the one registered under its
  \<open>uniqueID\<close> when the task framework hands over its events (progress ticks, then one
  terminal event: the value of a success or of a failure, or the cancellation): over the
  whole task exactly one state-changed notification is published, for the song id of the
  task; the terminal event first erases the progress entry and the listener entry of the
  \<open>uniqueID\<close>, then publishes what the outcome asks for, and the state-changed notification
  comes last; both entries are absent afterwards.  \<open>downloadSong\<close> registers the listener
  of the task it creates when no listener is registered under the \<open>uniqueID\<close>, and
  publishes no state-changed notification itself then.  The events of
  a task whose listener is not the registered one (\<open>fetchIndexes\<close> has cleared the map at
  line 171) change nothing: no notification is published and the progress entry stays.
\<close>

theorem download_task_state_changed_once:
  assumes reg: "m_downloadSongListeners w (l_id l) = Some l"
    and tm: "isTerminal event"
  shows "(\<exists>mid.
     (let w1 = deliverDownloadEvents env (l_id l) (l_task l) (map Progress ps) w;
          w2 = deliverDownloadEvent env (l_id l) (l_task l) event w1
      in w2 = deliverDownloadEvents env (l_id l) (l_task l) (map Progress ps @ [event]) w \<and>
         filter isStateChanged (newEffects w w2) = [Posted (SongStateChangedEvent (l_gdSongID l))] \<and>
         newEffects w1 w2 =
           ProgressErased (l_id l) # ListenerErased (l_id l) # mid @
             [Posted (SongStateChangedEvent (l_gdSongID l))] \<and>
         filter isStateChanged mid = [] \<and>
         m_downloadProgress w2 (l_id l) = None \<and>
         m_downloadSongListeners w2 (l_id l) = None)) \<and>
    (songType (heap w0 nong) \<noteq> LOCAL \<and> m_downloadSongListeners w0 (uid (heap w0) nong) = None \<longrightarrow>
       m_downloadSongListeners (snd (downloadSong env deliverNow nong w0)) (uid (heap w0) nong) =
         Some \<lparr>l_task = nextTask w0, l_gdSongID = gdID (metadata (heap w0 nong)),
               l_id = uid (heap w0) nong, l_nong = nong\<rparr> \<and>
       filter isStateChanged (newEffects w0 (snd (downloadSong env deliverNow nong w0))) = []) \<and>
    ((\<forall>l'. m_downloadSongListeners wd ident = Some l' \<longrightarrow> l_task l' \<noteq> t) \<longrightarrow>
       deliverDownloadEvents env ident t events wd = wd)"
proof -
  let ?w1 = "runDownloadListener env l (map Progress ps) w"
  let ?w2 = "downloadListener env l event ?w1"
  have d1: "deliverDownloadEvents env (l_id l) (l_task l) (map Progress ps) w = ?w1"
    and r1: "m_downloadSongListeners ?w1 (l_id l) = Some l"
    using deliverDownloadEvents_ticks_registered [OF reg] by blast+
  have d2: "deliverDownloadEvent env (l_id l) (l_task l) event ?w1 = ?w2"
    using r1 by (simp add: deliverDownloadEvent_def)
  have d3: "deliverDownloadEvents env (l_id l) (l_task l) (map Progress ps @ [event]) w = ?w2"
    by (rule deliverDownloadEvents_registered [OF reg])
  obtain mid where
    m: "filter isStateChanged (newEffects w ?w2) = [Posted (SongStateChangedEvent (l_gdSongID l))]"
       "newEffects ?w1 ?w2 =
           ProgressErased (l_id l) # ListenerErased (l_id l) # mid @
             [Posted (SongStateChangedEvent (l_gdSongID l))]"
       "filter isStateChanged mid = []"
       "m_downloadProgress ?w2 (l_id l) = None"
       "m_downloadSongListeners ?w2 (l_id l) = None"
    using runDownloadListener_state_changed_once [OF tm, of env l ps w, unfolded Let_def] by blast
  have a: "\<exists>mid.
     (let w1 = deliverDownloadEvents env (l_id l) (l_task l) (map Progress ps) w;
          w2 = deliverDownloadEvent env (l_id l) (l_task l) event w1
      in w2 = deliverDownloadEvents env (l_id l) (l_task l) (map Progress ps @ [event]) w \<and>
         filter isStateChanged (newEffects w w2) = [Posted (SongStateChangedEvent (l_gdSongID l))] \<and>
         newEffects w1 w2 =
           ProgressErased (l_id l) # ListenerErased (l_id l) # mid @
             [Posted (SongStateChangedEvent (l_gdSongID l))] \<and>
         filter isStateChanged mid = [] \<and>
         m_downloadProgress w2 (l_id l) = None \<and>
         m_downloadSongListeners w2 (l_id l) = None)"
    unfolding Let_def d1 d2 d3 using m by blast
  show ?thesis
    using a downloadSong_registers [of w0 nong env deliverNow]
      downloadSong_fresh_quiet [of w0 nong env deliverNow]
      deliverDownloadEvents_unregistered [of wd ident t env events]
    by blast
qed

text \<open>
  C8, witness: \<open>downloadSong\<close> has started the download of the Hosted song at address 5
  (task 0) and has registered its listener; one tick and then the failure of the request are
  handed over.  After \<open>fetchIndexes\<close> the same events reach nobody.
\<close>

theorem download_task_state_changed_once_witness:
  "m_downloadSongListeners exDownloading (l_id exListener) = Some exListener \<and>
   isTerminal (Value (Inl ''Web request failed'') :: downloadEvent) \<and>
   filter isStateChanged
     (newEffects exDownloading
        (deliverDownloadEvents exEnv ''b2'' 0 [Progress (1 / 2), Value (Inl ''Web request failed'')]
           exDownloading)) =
     [Posted (SongStateChangedEvent 42)] \<and>
   songType (heap exWorld 5) \<noteq> LOCAL \<and> m_downloadSongListeners exWorld (uid (heap exWorld) 5) = None \<and>
   m_downloadSongListeners (snd (downloadSong exEnv False 5 exWorld)) ''b2'' = Some exListener \<and>
   filter isStateChanged (newEffects exWorld (snd (downloadSong exEnv False 5 exWorld))) = [] \<and>
   filter isStateChanged
     (trace (deliverDownloadEvents exEnv ''b2'' 0
               [Progress (1 / 2), Value (Inl ''Web request failed'')]
               (snd (downloadSong exEnv False 5 exWorld)))) =
     [Posted (SongStateChangedEvent 42)] \<and>
   m_downloadSongListeners (snd (fetchIndexes exEnv exDownloading)) ''b2'' = None \<and>
   deliverDownloadEvents exEnv ''b2'' 0 [Progress (1 / 2), Value (Inl ''Web request failed'')]
     (snd (fetchIndexes exEnv exDownloading)) = snd (fetchIndexes exEnv exDownloading)"
proof -
  have reg: "m_downloadSongListeners exDownloading (l_id exListener) = Some exListener"
    by (simp add: exDownloading_eq exListener_def)
  have tm: "isTerminal (Value (Inl ''Web request failed'') :: downloadEvent)" by simp
  have fresh: "songType (heap exWorld 5) \<noteq> LOCAL"
    "m_downloadSongListeners exWorld (uid (heap exWorld) 5) = None"
    by (simp_all add: ex_defs)
  have cleared: "m_downloadSongListeners (snd (fetchIndexes exEnv exDownloading)) ''b2'' = None"
    by (simp add: exRefreshed_eq)
  then have gone: "\<forall>l'. m_downloadSongListeners (snd (fetchIndexes exEnv exDownloading)) ''b2'' = Some l' \<longrightarrow>
          l_task l' \<noteq> 0"
    by simp
  note inst = download_task_state_changed_once [OF reg tm, of exEnv "[1 / 2]" exWorld 5 False
      "snd (fetchIndexes exEnv exDownloading)" "''b2''" 0
      "[Progress (1 / 2), Value (Inl ''Web request failed'')]", unfolded Let_def]
  have once: "filter isStateChanged
     (newEffects exDownloading
        (deliverDownloadEvents exEnv ''b2'' 0 [Progress (1 / 2), Value (Inl ''Web request failed'')]
           exDownloading)) =
     [Posted (SongStateChangedEvent 42)]"
    using inst by (auto simp: exListener_def)
  have regd: "m_downloadSongListeners (snd (downloadSong exEnv False 5 exWorld)) ''b2'' = Some exListener"
    "filter isStateChanged (newEffects exWorld (snd (downloadSong exEnv False 5 exWorld))) = []"
    using inst fresh by (simp_all add: ex_defs)
  have whole: "filter isStateChanged
     (trace (deliverDownloadEvents exEnv ''b2'' 0
               [Progress (1 / 2), Value (Inl ''Web request failed'')]
               (snd (downloadSong exEnv False 5 exWorld)))) =
     [Posted (SongStateChangedEvent 42)]"
    unfolding exDownloading_def [symmetric]
    by (simp add: exDownloading_eq deliverDownloadEvents_def deliverDownloadEvent_def
          downloadListener_def prim_defs exListener_def)
  have none: "deliverDownloadEvents exEnv ''b2'' 0 [Progress (1 / 2), Value (Inl ''Web request failed'')]
     (snd (fetchIndexes exEnv exDownloading)) = snd (fetchIndexes exEnv exDownloading)"
    using inst gone by blast
  show ?thesis using reg tm once fresh regd whole cleared none by blast
qed

text \<open>
  C8, counterexample to the claim as stated.  \<open>downloadSong\<close> has started the download of
  the Hosted song at address 5 (task 0), and \<open>fetchIndexes\<close> runs before the request ends;
  line 171 clears the listener map.  The events of the task then reach no listener, be it a
  tick and the mapped value or the response of the request itself: the world stays as it
  is, no state-changed notification has been published for the task, and the progress entry
  of the \<open>uniqueID\<close> is still there.
\<close>

theorem download_after_refresh_counterexample:
  "(let w1 = snd (fetchIndexes exEnv exDownloading);
        w2 = deliverDownloadEvents exEnv ''b2'' 0 [Progress (1 / 2), Value (Inr ''nongs/1.mp3'')] w1;
        w3 = hostedCompleted exEnv ''b2'' 0 (exResponse True ''audio'' None) w1
    in exDownloading = snd (downloadSong exEnv False 5 exWorld) \<and>
       map_option l_task (m_downloadSongListeners exDownloading ''b2'') = Some 0 \<and>
       m_downloadSongListeners w1 ''b2'' = None \<and>
       w2 = w1 \<and> w3 = w1 \<and>
       filter isStateChanged (trace w2) = [] \<and>
       filter isStateChanged (trace w3) = [] \<and>
       m_downloadProgress w2 ''b2'' = Some 0 \<and>
       m_downloadProgress w3 ''b2'' = Some 0)"
proof -
  let ?w1 = "snd (fetchIndexes exEnv exDownloading)"
  have gone: "m_downloadSongListeners ?w1 ''b2'' = None" by (simp add: exRefreshed_eq)
  have kept: "m_downloadProgress ?w1 ''b2'' = Some 0"
    unfolding exRefreshed_eq by (simp add: exDownloading_eq)
  have quiet: "filter isStateChanged (trace ?w1) = []"
    unfolding exRefreshed_eq by (simp add: exDownloading_eq)
  have w2: "deliverDownloadEvents exEnv ''b2'' 0 [Progress (1 / 2), Value (Inr ''nongs/1.mp3'')] ?w1 = ?w1"
    using gone by (simp add: deliverDownloadEvents_def deliverDownloadEvent_def)
  have w3: "hostedCompleted exEnv ''b2'' 0 (exResponse True ''audio'' None) ?w1 = ?w1"
    using gone by (simp add: hostedCompleted_def)
  have started: "exDownloading = snd (downloadSong exEnv False 5 exWorld)"
    by (simp add: exDownloading_def)
  have before: "map_option l_task (m_downloadSongListeners exDownloading ''b2'') = Some 0"
    by (simp add: exDownloading_eq exListener_def)
  show ?thesis
    unfolding Let_def w2 w3 using gone kept quiet started before by blast
qed

text \<open>
  C5, the code where the claim fails.  A download of the Hosted song at address 5 is in
  flight (task 0) and \<open>downloadSong\<close> is called for it again, with a task framework that
  hands the cancellation to the listener on a later turn of the event loop.  \<open>emplace\<close>
  at line 666 finds the key present and inserts nothing: the listener registered is still
  that of task 0, and the zero-progress event of the second task is published before the
  first task's listener sees the cancellation.  When the cancellation arrives, the old
  listener erases both entries of the \<open>uniqueID\<close>, and the response of the second task
  reaches no listener.
\<close>

theorem downloadSong_restart_keeps_old_listener:
  "(let w2 = snd (downloadSong exEnv False 5 exDownloading);
        w3 = deliverDownloadEvent exEnv ''b2'' 0 Cancelled w2
    in map_option l_task (m_downloadSongListeners exDownloading ''b2'') = Some 0 \<and>
       map_option l_task (m_downloadSongListeners w2 ''b2'') = Some 0 \<and>
       newEffects exDownloading w2 =
         [CancelCalled 0, Requested 1 (HttpGet ''https://host/song.mp3''),
          ProgressSet ''b2'' 0, Posted (SongDownloadProgressEvent 42 ''b2'' 0)] \<and>
       newEffects w2 w3 =
         [ProgressErased ''b2'', ListenerErased ''b2'',
          Posted (SongErrorEvent False ''Failed to fetch song: cancelled''),
          Posted (SongStateChangedEvent 42)] \<and>
       m_downloadSongListeners w3 ''b2'' = None \<and>
       getSongDownloadProgress w3 ''b2'' = Inr None \<and>
       hostedCompleted exEnv ''b2'' 1 (exResponse True ''audio'' None) w3 = w3)"
  by (simp add: exDownloading_eq download_defs prim_defs ex_defs Let_def newEffects_def)

text \<open>
  With a framework that hands the cancellation over before \<open>cancel()\<close> returns, the old
  listener has erased its entry when line 666 runs, and the new listener is registered.
\<close>

lemma downloadSong_restart_delivered_at_once:
  "(let w2 = snd (downloadSong exEnv True 5 exDownloading)
    in map_option l_task (m_downloadSongListeners w2 ''b2'') = Some 1 \<and>
       newEffects exDownloading w2 =
         [CancelCalled 0, ProgressErased ''b2'', ListenerErased ''b2'',
          Posted (SongErrorEvent False ''Failed to fetch song: cancelled''),
          Posted (SongStateChangedEvent 42),
          Requested 1 (HttpGet ''https://host/song.mp3''),
          ProgressSet ''b2'' 0, Posted (SongDownloadProgressEvent 42 ''b2'' 0)])"
  by (simp add: exDownloading_eq download_defs prim_defs ex_defs Let_def newEffects_def)

text \<open>
  C2, counterexample to the claim as stated: the Hosted request of the download in flight
  succeeds with an empty body.  The mapper writes an empty file to the generated path and
  returns that path; the listener tests the path, not the body, so it commits: the
  \<open>indexID\<close> is assigned and the local store is asked to make the song active.
\<close>

theorem hosted_empty_body_commits_counterexample:
  "(let w2 = hostedCompleted exEnv ''b2'' 0 (exResponse True [] None) exDownloading
    in r_ok (exResponse True [] None) \<and> r_data (exResponse True [] None) = [] \<and>
       indexID (heap exDownloading 5) = None \<and>
       indexID (heap w2 5) = Some ''b2'' \<and>
       files w2 ''nongs/1.mp3'' = Some [] \<and>
       newEffects exDownloading w2 =
         [FileWritten ''nongs/1.mp3'' [], ProgressErased ''b2'', ListenerErased ''b2'',
          IndexIDSet 5 ''b2'', SetActiveSongCalled 42 ''b2'', Posted (SongStateChangedEvent 42)])"
  by (simp add: exDownloading_eq download_defs prim_defs ex_defs Let_def newEffects_def)

text \<open>
  C2 (amended).  The commit step is skipped when the task ends successfully with an empty
  destination path (line 647 tests \<open>result->value().string().size()\<close>): the listener erases
  the two entries and publishes one state-changed notification, no \<open>indexID\<close> is assigned,
  the local store is not called, no error event is published.  A Hosted request that
  succeeds, with whatever body, commits when the generated path is not empty: the body is
  written to that path, the \<open>indexID\<close> is assigned and the local store is called.
\<close>

theorem downloadListener_empty_path_skips_commit:
  "(let w' = downloadListener env l (Value (Inr [])) w
    in newEffects w w' =
         [ProgressErased (l_id l), ListenerErased (l_id l),
          Posted (SongStateChangedEvent (l_gdSongID l))] \<and>
       heap w' = heap w) \<and>
   (m_downloadSongListeners w ident = Some l \<and> l_task l = t \<and> r_ok response \<and>
    generateSongFilePath env (files w) ''mp3'' \<noteq> [] \<longrightarrow>
      (let w' = hostedCompleted env ident t response w
       in indexID (heap w' (l_nong l)) = Some (l_id l) \<and>
          SetActiveSongCalled (l_gdSongID l) (l_id l) \<in> set (newEffects w w') \<and>
          (canOpenForWrite env (generateSongFilePath env (files w) ''mp3'') \<longrightarrow>
             files w' (generateSongFilePath env (files w) ''mp3'') = Some (r_data response))))"
proof (intro conjI impI)
  show "let w' = downloadListener env l (Value (Inr [])) w
    in newEffects w w' =
         [ProgressErased (l_id l), ListenerErased (l_id l),
          Posted (SongStateChangedEvent (l_gdSongID l))] \<and>
       heap w' = heap w"
    by (simp add: downloadListener_def prim_defs Let_def newEffects_def)
next
  assume a: "m_downloadSongListeners w ident = Some l \<and> l_task l = t \<and> r_ok response \<and>
    generateSongFilePath env (files w) ''mp3'' \<noteq> []"
  show "let w' = hostedCompleted env ident t response w
       in indexID (heap w' (l_nong l)) = Some (l_id l) \<and>
          SetActiveSongCalled (l_gdSongID l) (l_id l) \<in> set (newEffects w w') \<and>
          (canOpenForWrite env (generateSongFilePath env (files w) ''mp3'') \<longrightarrow>
             files w' (generateSongFilePath env (files w) ''mp3'') = Some (r_data response))"
    using a
    by (cases "setActiveSong env (l_gdSongID l) (l_id l)")
       (simp_all add: download_defs prim_defs Let_def newEffects_def)
qed

text \<open>C2, witness: the download in flight and the response with the empty body.\<close>

theorem downloadListener_empty_path_skips_commit_witness:
  "m_downloadSongListeners exDownloading ''b2'' = Some exListener \<and> l_task exListener = 0 \<and>
   r_ok (exResponse True [] None) \<and>
   generateSongFilePath exEnv (files exDownloading) ''mp3'' \<noteq> [] \<and>
   indexID (heap (hostedCompleted exEnv ''b2'' 0 (exResponse True [] None) exDownloading)
              (l_nong exListener)) = Some (l_id exListener) \<and>
   newEffects exDownloading (downloadListener exEnv exListener (Value (Inr [])) exDownloading) =
     [ProgressErased ''b2'', ListenerErased ''b2'', Posted (SongStateChangedEvent 42)]"
  using downloadListener_empty_path_skips_commit
          [of exEnv exListener exDownloading "''b2''" 0 "exResponse True [] None"]
  by (simp add: exDownloading_eq ex_defs Let_def)


lemma cancelTask_frame:
  "heap (cancelTask env deliverNow ident t w) = heap w \<and>
   nextTask (cancelTask env deliverNow ident t w) = nextTask w \<and>
   cobalt (cancelTask env deliverNow ident t w) = cobalt w \<and>
   (\<exists>xs. trace (cancelTask env deliverNow ident t w) = trace w @ xs \<and> filter isRequested xs = [])"
  by (simp add: cancelTask_def deliverDownloadEvent_def downloadListener_def prim_defs Let_def
           split: option.splits)

text \<open>
  C6.  \<open>downloadSong\<close> on a YouTube variant whose video id is not 11 characters long: the
  task it creates has ended with the error \<open>Invalid YouTube ID\<close> when \<open>downloadSong\<close>
  returns, no web request was started (neither the resolver POST nor an audio GET), and
  neither listener of the task waits for a web task, so no web event reaches it later.
\<close>

theorem downloadSong_invalid_youtube_id:
  assumes yt: "songType (heap w nong) = YOUTUBE"
    and bad: "length (youtubeID (heap w nong)) \<noteq> 11"
  shows "let w' = snd (downloadSong env deliverNow nong w); t = nextTask w
         in finished w' t = Some (Inl ''Invalid YouTube ID'') \<and>
            Finished t (Inl ''Invalid YouTube ID'') \<in> set (newEffects w w') \<and>
            filter isRequested (newEffects w w') = [] \<and>
            cobalt w' t = Some CobaltAllocated \<and>
            deliverWebEvent env rnd t nong event w' = w'"
proof -
  let ?ident = "uid (heap w) nong"
  let ?w1 = "case m_downloadSongListeners w ?ident of None \<Rightarrow> w
             | Some old \<Rightarrow> cancelTask env deliverNow ?ident (l_task old) w"
  obtain xs where fr: "heap ?w1 = heap w" "nextTask ?w1 = nextTask w"
    and tr: "trace ?w1 = trace w @ xs" and nr: "filter isRequested xs = []"
    using cancelTask_frame [of env deliverNow ?ident _ w]
    by (cases "m_downloadSongListeners w ?ident") auto
  show ?thesis
    using yt bad fr tr nr
    by (simp add: downloadSong_def Let_def newTask_def ytTaskBody_def finish_def
          emplaceListener_def prim_defs newEffects_def deliverWebEvent_def split: option.splits)
qed


text \<open>C6, witness: the song at address 6, whose video id is \<open>short\<close>.\<close>

theorem downloadSong_invalid_youtube_id_witness:
  "songType (heap exWorld 6) = YOUTUBE \<and> length (youtubeID (heap exWorld 6)) \<noteq> 11 \<and>
   finished (snd (downloadSong exEnv False 6 exWorld)) (nextTask exWorld) =
     Some (Inl ''Invalid YouTube ID'') \<and>
   filter isRequested (newEffects exWorld (snd (downloadSong exEnv False 6 exWorld))) = []"
proof -
  have yt: "songType (heap exWorld 6) = YOUTUBE"
    and bad: "length (youtubeID (heap exWorld 6)) \<noteq> 11"
    by (simp_all add: ex_defs)
  show ?thesis
    using yt bad downloadSong_invalid_youtube_id [OF yt bad, of exEnv False]
    by (simp add: Let_def)
qed

subsection \<open>Refreshing the catalogs\<close>

lemma fetchIndexStep_frame:
  "m_downloadSongListeners (fetchIndexStep env w index) = m_downloadSongListeners w \<and>
   m_indexNongs (fetchIndexStep env w index) = m_indexNongs w \<and>
   m_downloadProgress (fetchIndexStep env w index) = m_downloadProgress w \<and>
   nextTask w \<le> nextTask (fetchIndexStep env w index) \<and>
   (\<forall>u l. m_indexListeners (fetchIndexStep env w index) u = Some l \<longrightarrow>
      m_indexListeners w u = Some l \<or> nextTask w \<le> f_task l)"
  by (auto simp: fetchIndexStep_def newTask_def startRequest_def emit_def emplaceIndexListener_def
        Let_def split: option.splits if_splits)

lemma foldl_fetchIndexStep_frame:
  "m_downloadSongListeners (foldl (fetchIndexStep env) w ixs) = m_downloadSongListeners w \<and>
   m_indexNongs (foldl (fetchIndexStep env) w ixs) = m_indexNongs w \<and>
   m_downloadProgress (foldl (fetchIndexStep env) w ixs) = m_downloadProgress w \<and>
   nextTask w \<le> nextTask (foldl (fetchIndexStep env) w ixs) \<and>
   (\<forall>u l. m_indexListeners (foldl (fetchIndexStep env) w ixs) u = Some l \<longrightarrow>
      m_indexListeners w u = Some l \<or> nextTask w \<le> f_task l)"
proof (induction ixs arbitrary: w)
  case Nil
  then show ?case by simp
next
  case (Cons index ixs)
  let ?w1 = "fetchIndexStep env w index"
  have s: "m_downloadSongListeners ?w1 = m_downloadSongListeners w"
    "m_indexNongs ?w1 = m_indexNongs w"
    "m_downloadProgress ?w1 = m_downloadProgress w"
    "nextTask w \<le> nextTask ?w1"
    "\<forall>u l. m_indexListeners ?w1 u = Some l \<longrightarrow>
      m_indexListeners w u = Some l \<or> nextTask w \<le> f_task l"
    using fetchIndexStep_frame [of env w index] by blast+
  have r: "m_downloadSongListeners (foldl (fetchIndexStep env) ?w1 ixs) = m_downloadSongListeners ?w1"
    "m_indexNongs (foldl (fetchIndexStep env) ?w1 ixs) = m_indexNongs ?w1"
    "m_downloadProgress (foldl (fetchIndexStep env) ?w1 ixs) = m_downloadProgress ?w1"
    "nextTask ?w1 \<le> nextTask (foldl (fetchIndexStep env) ?w1 ixs)"
    "\<forall>u l. m_indexListeners (foldl (fetchIndexStep env) ?w1 ixs) u = Some l \<longrightarrow>
      m_indexListeners ?w1 u = Some l \<or> nextTask ?w1 \<le> f_task l"
    using Cons.IH [of ?w1] by blast+
  have last: "\<forall>u l. m_indexListeners (foldl (fetchIndexStep env) ?w1 ixs) u = Some l \<longrightarrow>
      m_indexListeners w u = Some l \<or> nextTask w \<le> f_task l"
  proof (intro allI impI)
    fix u l
    assume "m_indexListeners (foldl (fetchIndexStep env) ?w1 ixs) u = Some l"
    then have "m_indexListeners ?w1 u = Some l \<or> nextTask ?w1 \<le> f_task l" using r(5) by blast
    then show "m_indexListeners w u = Some l \<or> nextTask w \<le> f_task l"
      using s(4,5) by (metis le_trans)
  qed
  show ?case using s r last by simp
qed

text \<open>
  C10.  \<open>fetchIndexes\<close> returns \<open>Ok\<close> and leaves the download-listener map and the index
  table empty; every fetch listener present afterwards belongs to a task this call created;
  the progress map is as it was.  So a download in flight has lost its listener: an event of
  its task reaches nobody, its progress entry stays, and \<open>getSongDownloadProgress\<close> answers
  \<open>nullopt\<close> for every \<open>uniqueID\<close>, since it looks into the listener map first.  What the
  three maps held before the call has no influence on the world after it.
\<close>

theorem fetchIndexes_clears_download_listeners:
  "(let w' = snd (fetchIndexes env w)
    in fst (fetchIndexes env w) = Inr () \<and>
       m_downloadSongListeners w' = Map.empty \<and>
       m_indexNongs w' = Map.empty \<and>
       (\<forall>u l. m_indexListeners w' u = Some l \<longrightarrow> nextTask w \<le> f_task l) \<and>
       m_downloadProgress w' = m_downloadProgress w \<and>
       getSongDownloadProgress w' ident = Inr None \<and>
       deliverDownloadEvent env' ident t event w' = w' \<and>
       w' = snd (fetchIndexes env
                   (w\<lparr>m_indexListeners := Map.empty, m_indexNongs := Map.empty,
                      m_downloadSongListeners := Map.empty\<rparr>)))"
proof -
  let ?w1 = "w\<lparr>m_indexListeners := Map.empty, m_indexNongs := Map.empty,
               m_downloadSongListeners := Map.empty\<rparr>"
  let ?w' = "foldl (fetchIndexStep env) ?w1 (indexesSetting env)"
  have eq: "fetchIndexes env w = (Inr (), ?w')" by (simp add: fetchIndexes_def)
  have f: "m_downloadSongListeners ?w' = Map.empty" "m_indexNongs ?w' = Map.empty"
    "m_downloadProgress ?w' = m_downloadProgress w"
    "\<forall>u l. m_indexListeners ?w' u = Some l \<longrightarrow> nextTask w \<le> f_task l"
    using foldl_fetchIndexStep_frame [of env ?w1 "indexesSetting env"] by simp_all
  have same: "?w' = snd (fetchIndexes env ?w1)" by (simp add: fetchIndexes_def)
  show ?thesis
    unfolding eq using f same
    by (simp add: getSongDownloadProgress_def deliverDownloadEvent_def)
qed

text \<open>
  C10, witness: the download of the song at address 5 is in flight, with progress 0, when
  the catalogs are refreshed.
\<close>

theorem fetchIndexes_clears_download_listeners_witness:
  "m_downloadSongListeners exDownloading ''b2'' = Some exListener \<and>
   getSongDownloadProgress exDownloading ''b2'' = Inr (Some 0) \<and>
   m_downloadSongListeners (snd (fetchIndexes exEnv exDownloading)) ''b2'' = None \<and>
   m_downloadProgress (snd (fetchIndexes exEnv exDownloading)) ''b2'' = Some 0 \<and>
   getSongDownloadProgress (snd (fetchIndexes exEnv exDownloading)) ''b2'' = Inr None \<and>
   deliverDownloadEvent exEnv ''b2'' 0 (Value (Inr ''nongs/1.mp3''))
     (snd (fetchIndexes exEnv exDownloading)) = snd (fetchIndexes exEnv exDownloading)"
proof -
  let ?w' = "snd (fetchIndexes exEnv exDownloading)"
  have before: "m_downloadSongListeners exDownloading ''b2'' = Some exListener"
    "getSongDownloadProgress exDownloading ''b2'' = Inr (Some 0)"
    "m_downloadProgress exDownloading ''b2'' = Some 0"
    by (simp_all add: exDownloading_eq getSongDownloadProgress_def)
  have after: "m_downloadSongListeners ?w' = Map.empty"
    "m_downloadProgress ?w' = m_downloadProgress exDownloading"
    "getSongDownloadProgress ?w' ''b2'' = Inr None"
    "deliverDownloadEvent exEnv ''b2'' 0 (Value (Inr ''nongs/1.mp3'')) ?w' = ?w'"
    using fetchIndexes_clears_download_listeners
            [of exEnv exDownloading "''b2''" exEnv 0 "Value (Inr ''nongs/1.mp3'')",
             unfolded Let_def]
    by blast+
  show ?thesis using before after by simp
qed

subsection \<open>The end of a fetch\<close>

lemma foldl_post_frame:
  "trace (foldl (\<lambda>w' err. post (SongErrorEvent False err) w') w errs) =
     trace w @ map (\<lambda>err. Posted (SongErrorEvent False err)) errs \<and>
   files (foldl (\<lambda>w' err. post (SongErrorEvent False err) w') w errs) = files w"
  by (induction errs arbitrary: w) (simp_all add: post_def emit_def)

lemma loadIndex_frame:
  "\<exists>xs. trace (snd (loadIndex env p w)) = trace w @ IndexFileLoaded p (files w p) # xs \<and>
        files (snd (loadIndex env p w)) = files w \<and>
        (\<forall>e\<in>set xs. \<exists>m. e = Posted (SongErrorEvent False m))"
  by (auto simp: loadIndex_def Let_def emit_def foldl_post_frame
           split: option.splits sum.splits prod.splits)

lemma fetchListener_Value_frame:
  "\<exists>xs. trace (fetchListener env l (Value result) w) =
          trace w @ (case result of Inl err \<Rightarrow> [Posted (SongErrorEvent False (''Failed to fetch index: '' @ err))]
                     | Inr u \<Rightarrow> []) @
          IndexFileLoaded (f_filepath l) (files w (f_filepath l)) # xs \<and>
        files (fetchListener env l (Value result) w) = files w \<and>
        (\<forall>e\<in>set xs. \<exists>m. e = Posted (SongErrorEvent False m))"
proof -
  let ?w1 = "w\<lparr>m_indexListeners := (m_indexListeners w)(m_url (f_index l) := None)\<rparr>"
  let ?w2 = "case result of
               Inl err \<Rightarrow> post (SongErrorEvent False (''Failed to fetch index: '' @ err)) ?w1
             | Inr u \<Rightarrow> ?w1"
  have t2: "trace ?w2 = trace w @ (case result of Inl err \<Rightarrow> [Posted (SongErrorEvent False (''Failed to fetch index: '' @ err))]
                     | Inr u \<Rightarrow> [])" and f2: "files ?w2 = files w"
    by (simp_all add: post_def emit_def split: sum.splits)
  obtain xs where li: "trace (snd (loadIndex env (f_filepath l) ?w2)) =
        trace ?w2 @ IndexFileLoaded (f_filepath l) (files ?w2 (f_filepath l)) # xs"
      "files (snd (loadIndex env (f_filepath l) ?w2)) = files ?w2"
      "\<forall>e\<in>set xs. \<exists>m. e = Posted (SongErrorEvent False m)"
    using loadIndex_frame [of env "f_filepath l" ?w2] by blast
  obtain res w3 where l3: "loadIndex env (f_filepath l) ?w2 = (res, w3)" by fastforce
  have fl: "fetchListener env l (Value result) w =
          (case res of Inl err \<Rightarrow> if err \<noteq> [] then post (SongErrorEvent False (''Failed to load index: '' @ err)) w3 else w3
           | Inr u \<Rightarrow> w3)"
    using l3 by (simp add: fetchListener_def Let_def split: sum.splits)
  have "\<exists>ys. trace (fetchListener env l (Value result) w) = trace w3 @ ys \<and>
             files (fetchListener env l (Value result) w) = files w3 \<and>
             (\<forall>e\<in>set ys. \<exists>m. e = Posted (SongErrorEvent False m))"
    unfolding fl by (cases res) (auto simp: post_def emit_def)
  then obtain ys where ys: "trace (fetchListener env l (Value result) w) = trace w3 @ ys"
      "files (fetchListener env l (Value result) w) = files w3"
      "\<forall>e\<in>set ys. \<exists>m. e = Posted (SongErrorEvent False m)" by blast
  have "trace (fetchListener env l (Value result) w) =
          trace w @ (case result of Inl err \<Rightarrow> [Posted (SongErrorEvent False (''Failed to fetch index: '' @ err))]
                     | Inr u \<Rightarrow> []) @
          IndexFileLoaded (f_filepath l) (files w (f_filepath l)) # (xs @ ys)"
    using ys(1) li(1) l3 t2 f2 by simp
  moreover have "files (fetchListener env l (Value result) w) = files w"
    using ys(2) li(2) l3 f2 by simp
  moreover have "\<forall>e\<in>set (xs @ ys). \<exists>m. e = Posted (SongErrorEvent False m)"
    using li(3) ys(3) by auto
  ultimately show ?thesis by blast
qed

subsection \<open>The mapper and the listener of a fetch together\<close>


lemma fetchMap_fails:
  assumes "fetchStepFails env filepath index response"
  shows "\<exists>err. fetchMap env filepath index response w = (Inl err, w)"
  using assms
  by (auto simp: fetchStepFails_def fetchMap_def Let_def split: option.splits sum.splits if_splits)

lemma fetchMap_succeeds:
  assumes "\<not> fetchStepFails env filepath index response"
  shows "\<exists>body parsed. r_string response = Some body \<and> jsonParse env body = Inr parsed \<and>
           fetchMap env filepath index response w =
             (Inr (), emit (FileWritten filepath (canonicalIndex env index parsed))
                        (w\<lparr>files := (files w)(filepath \<mapsto> canonicalIndex env index parsed)\<rparr>))"
  using assms
  by (auto simp: fetchStepFails_def fetchMap_def canonicalIndex_def Let_def
           split: option.splits sum.splits if_splits)

lemma error_events: "\<forall>e\<in>set xs. \<exists>m. e = Posted (SongErrorEvent False m) \<Longrightarrow> \<forall>e\<in>set xs. isErrorEvent e"
  by auto

text \<open>
  C9.  The response of a fetch arrives for a registered listener.  If a step of the mapper
  fails (transport or status, body not text, parse, not an object, schema, file not
  opened), an error event with the mapper's message is published, no file is written and
  the file system is as before, and \<open>loadIndex\<close> runs on the cache file of the URL and finds
  what it held before.  Otherwise the cache file is overwritten with the serialization of
  the parsed object with the URL set, and \<open>loadIndex\<close> runs on it and finds exactly that.
  In both cases whatever follows in the effects is error events (of \<open>loadIndex\<close>).
\<close>

theorem fetchCompleted_cache:
  assumes reg: "m_indexListeners w u = Some l"
  shows "let filepath = f_filepath l; index = f_index l; w' = fetchCompleted env u response w
         in (fetchStepFails env filepath index response \<longrightarrow>
               (\<exists>err rest.
                  newEffects w w' =
                    Posted (SongErrorEvent False (''Failed to fetch index: '' @ err)) #
                    IndexFileLoaded filepath (files w filepath) # rest \<and>
                  (\<forall>e\<in>set rest. isErrorEvent e)) \<and>
               files w' = files w) \<and>
            (\<not> fetchStepFails env filepath index response \<longrightarrow>
               (\<exists>body parsed rest.
                  r_string response = Some body \<and> jsonParse env body = Inr parsed \<and>
                  newEffects w w' =
                    FileWritten filepath (canonicalIndex env index parsed) #
                    IndexFileLoaded filepath (Some (canonicalIndex env index parsed)) # rest \<and>
                  (\<forall>e\<in>set rest. isErrorEvent e) \<and>
                  files w' = (files w)(filepath \<mapsto> canonicalIndex env index parsed)))"
proof -
  let ?p = "f_filepath l"
  let ?ix = "f_index l"
  let ?w' = "fetchCompleted env u response w"
  have fail: "(\<exists>err rest.
                  newEffects w ?w' =
                    Posted (SongErrorEvent False (''Failed to fetch index: '' @ err)) #
                    IndexFileLoaded ?p (files w ?p) # rest \<and>
                  (\<forall>e\<in>set rest. isErrorEvent e)) \<and>
               files ?w' = files w"
    if f: "fetchStepFails env ?p ?ix response"
  proof -
    obtain err where m: "fetchMap env ?p ?ix response w = (Inl err, w)"
      using fetchMap_fails [OF f] by blast
    have w': "?w' = fetchListener env l (Value (Inl err)) w"
      using reg m by (simp add: fetchCompleted_def)
    obtain xs where "trace ?w' = trace w @
          [Posted (SongErrorEvent False (''Failed to fetch index: '' @ err))] @
          IndexFileLoaded ?p (files w ?p) # xs"
        and fs: "files ?w' = files w"
        and xs: "\<forall>e\<in>set xs. \<exists>m. e = Posted (SongErrorEvent False m)"
      unfolding w' using fetchListener_Value_frame [of env l "Inl err" w] by auto
    then have "newEffects w ?w' = Posted (SongErrorEvent False (''Failed to fetch index: '' @ err)) #
          IndexFileLoaded ?p (files w ?p) # xs"
      by (simp add: newEffects_def)
    then show ?thesis using fs error_events [OF xs] by blast
  qed
  have ok: "\<exists>body parsed rest.
                  r_string response = Some body \<and> jsonParse env body = Inr parsed \<and>
                  newEffects w ?w' =
                    FileWritten ?p (canonicalIndex env ?ix parsed) #
                    IndexFileLoaded ?p (Some (canonicalIndex env ?ix parsed)) # rest \<and>
                  (\<forall>e\<in>set rest. isErrorEvent e) \<and>
                  files ?w' = (files w)(?p \<mapsto> canonicalIndex env ?ix parsed)"
    if nf: "\<not> fetchStepFails env ?p ?ix response"
  proof -
    obtain body parsed where b: "r_string response = Some body" "jsonParse env body = Inr parsed"
      and m: "fetchMap env ?p ?ix response w =
             (Inr (), emit (FileWritten ?p (canonicalIndex env ?ix parsed))
                        (w\<lparr>files := (files w)(?p \<mapsto> canonicalIndex env ?ix parsed)\<rparr>))"
      using fetchMap_succeeds [OF nf] by blast
    let ?w1 = "emit (FileWritten ?p (canonicalIndex env ?ix parsed))
                        (w\<lparr>files := (files w)(?p \<mapsto> canonicalIndex env ?ix parsed)\<rparr>)"
    have w': "?w' = fetchListener env l (Value (Inr ())) ?w1"
      using reg m by (simp add: fetchCompleted_def)
    obtain xs where "trace ?w' = trace ?w1 @ IndexFileLoaded ?p (files ?w1 ?p) # xs"
        and fs: "files ?w' = files ?w1"
        and xs: "\<forall>e\<in>set xs. \<exists>m. e = Posted (SongErrorEvent False m)"
      unfolding w' using fetchListener_Value_frame [of env l "Inr ()" ?w1] by auto
    then have "newEffects w ?w' = FileWritten ?p (canonicalIndex env ?ix parsed) #
                    IndexFileLoaded ?p (Some (canonicalIndex env ?ix parsed)) # xs"
      by (simp add: newEffects_def emit_def)
    moreover have "files ?w' = (files w)(?p \<mapsto> canonicalIndex env ?ix parsed)"
      using fs by (simp add: emit_def)
    ultimately show ?thesis using b error_events [OF xs] by blast
  qed
  show ?thesis using fail ok by (simp add: Let_def)
qed

lemma exFetching_eq:
  "exFetching =
     \<lparr>heap = exHeap, files = Map.empty, m_indexNongs = Map.empty,
      m_indexListeners =
        [''https://index/a.json'' \<mapsto>
           \<lparr>f_task = 0, f_index = \<lparr>m_url = ''https://index/a.json'', m_enabled = True\<rparr>,
            f_filepath = ''cache/https://index/a.json''\<rparr>],
      m_downloadSongListeners = Map.empty, m_downloadProgress = Map.empty, cobalt = Map.empty,
      cancelRequested = (\<lambda>t. False), finished = Map.empty, nextTask = 1,
      trace = [Requested 0 (HttpGet ''https://index/a.json'')]\<rparr>"
  by (simp add: exFetching_def fetchIndexes_def fetchIndexStep_def newTask_def startRequest_def
        emit_def emplaceIndexListener_def exEnv_def exWorld_def Let_def fun_eq_iff)

text \<open>
  C9, witness: the fetch of the configured source is in flight; once the request fails, once
  it answers \<open>{}\<close>.
\<close>

theorem fetchCompleted_cache_witness:
  "m_indexListeners exFetching ''https://index/a.json'' =
     Some \<lparr>f_task = 0, f_index = \<lparr>m_url = ''https://index/a.json'', m_enabled = True\<rparr>,
           f_filepath = ''cache/https://index/a.json''\<rparr> \<and>
   fetchStepFails exEnv ''cache/https://index/a.json''
     \<lparr>m_url = ''https://index/a.json'', m_enabled = True\<rparr> (exResponse False [] None) \<and>
   files (fetchCompleted exEnv ''https://index/a.json'' (exResponse False [] None) exFetching) =
     files exFetching \<and>
   \<not> fetchStepFails exEnv ''cache/https://index/a.json''
     \<lparr>m_url = ''https://index/a.json'', m_enabled = True\<rparr> (exResponse True ''{}'' None) \<and>
   files (fetchCompleted exEnv ''https://index/a.json'' (exResponse True ''{}'' None) exFetching)
     ''cache/https://index/a.json'' = Some ''dumped''"
proof -
  let ?l = "\<lparr>f_task = 0, f_index = \<lparr>m_url = ''https://index/a.json'', m_enabled = True\<rparr>,
           f_filepath = ''cache/https://index/a.json''\<rparr>"
  have reg: "m_indexListeners exFetching ''https://index/a.json'' = Some ?l"
    by (simp add: exFetching_eq)
  have f: "fetchStepFails exEnv ''cache/https://index/a.json''
     \<lparr>m_url = ''https://index/a.json'', m_enabled = True\<rparr> (exResponse False [] None)"
    by (simp add: fetchStepFails_def exResponse_def)
  have nf: "\<not> fetchStepFails exEnv ''cache/https://index/a.json''
     \<lparr>m_url = ''https://index/a.json'', m_enabled = True\<rparr> (exResponse True ''{}'' None)"
    by (simp add: fetchStepFails_def exResponse_def exEnv_def)
  show ?thesis
    using reg f nf
      fetchCompleted_cache [OF reg, of exEnv "exResponse False [] None"]
      fetchCompleted_cache [OF reg, of exEnv "exResponse True ''{}'' None"]
    by (auto simp: Let_def canonicalIndex_def exEnv_def)
qed

subsection \<open>The progress of a YouTube download\<close>






















subsection \<open>The rounding of binary32\<close>




















text \<open>
  The constants of the progress formulas: \<open>0.1f\<close>, \<open>0.9f\<close>, and the value the audio formula
  gives for 100 percent, \<open>1.f * 0.9f + 0.1f\<close>, which is 1.
\<close>

lemmas float32_eval = float32_def exponent32_def roundTiesToEven_def Let_def eval_nat_numeral


text \<open>Ties go to the even significand; below \<open>2 powi (-126)\<close> the spacing stays \<open>2 powi (-149)\<close>.\<close>

lemma float32_ties:
  "float32 16777217 = 16777216"
  "float32 16777219 = 16777220"
  "float32 (1 / 2 ^ 150) = 0"
  "float32 (3 / 2 ^ 150) = 1 / 2 ^ 148"
  "float32 (1 / 3) = 11184811 / 33554432"
  by (simp_all add: float32_eval)




end
